theory Spec2Isabelle
  imports Complex_Main "HOL-Library.Word"
begin

section \<open>Numbers, vectors and matrices\<close>

text \<open>
  The programs compute on JavaScript numbers. The drawing code, the gait and the placing
  of the barbell are modelled over the reals, with the sine, the cosine, the square root
  and the arccosine as the mathematical functions: rounding and overflow are left out
  there. The interpolation of the poses is given over the reals and, with the clock of
  the render loop, in double-precision arithmetic, where every operation is rounded (see
  the section on double-precision arithmetic); what is said about the equality of two
  computed numbers is said of the rounded ones. Where the placing of the barbell can
  produce a value that is not a number (a division by a zero length, an arccosine outside
  its domain), the case is written out.

  The sources import the library gl-matrix 3.4.3 (\<^verbatim>\<open>mat4\<close>, \<^verbatim>\<open>vec3\<close>). A \<^verbatim>\<open>mat4\<close> is an
  array of sixteen numbers in column-major order; the record below names the entries by
  their array index, so that \<^verbatim>\<open>L[12]\<close> of the source is \<open>m12 L\<close>.
\<close>

type_synonym vec3 = "real \<times> real \<times> real"

record mat4 =
  m0 :: real
  m1 :: real
  m2 :: real
  m3 :: real
  m4 :: real
  m5 :: real
  m6 :: real
  m7 :: real
  m8 :: real
  m9 :: real
  m10 :: real
  m11 :: real
  m12 :: real
  m13 :: real
  m14 :: real
  m15 :: real

text \<open>\<^verbatim>\<open>glMatrix.EPSILON\<close>\<close>

definition EPSILON :: real where
  "EPSILON = 1 / 1000000"

text \<open>\<^verbatim>\<open>mat4.create()\<close> and \<^verbatim>\<open>mat4.identity(out)\<close>: the identity matrix.\<close>

definition mat4_create :: mat4 where
  "mat4_create =
     \<lparr> m0 = 1, m1 = 0, m2 = 0, m3 = 0,
       m4 = 0, m5 = 1, m6 = 0, m7 = 0,
       m8 = 0, m9 = 0, m10 = 1, m11 = 0,
       m12 = 0, m13 = 0, m14 = 0, m15 = 1 \<rparr>"

text \<open>
  \<^verbatim>\<open>mat4.translate(out, a, v)\<close> with \<^verbatim>\<open>out === a\<close>, the only way the sources call it: the
  last column becomes \<^verbatim>\<open>a[0] * x + a[4] * y + a[8] * z + a[12]\<close> and so on.
\<close>

fun mat4_translate :: "mat4 \<Rightarrow> vec3 \<Rightarrow> mat4" where
  "mat4_translate a (x, y, z) =
     a \<lparr> m12 := m0 a * x + m4 a * y + m8 a * z + m12 a,
         m13 := m1 a * x + m5 a * y + m9 a * z + m13 a,
         m14 := m2 a * x + m6 a * y + m10 a * z + m14 a,
         m15 := m3 a * x + m7 a * y + m11 a * z + m15 a \<rparr>"

text \<open>\<^verbatim>\<open>mat4.scale(out, a, v)\<close>: the first three columns are multiplied by the components.\<close>

fun mat4_scale :: "mat4 \<Rightarrow> vec3 \<Rightarrow> mat4" where
  "mat4_scale a (x, y, z) =
     a \<lparr> m0 := m0 a * x, m1 := m1 a * x, m2 := m2 a * x, m3 := m3 a * x,
         m4 := m4 a * y, m5 := m5 a * y, m6 := m6 a * y, m7 := m7 a * y,
         m8 := m8 a * z, m9 := m9 a * z, m10 := m10 a * z, m11 := m11 a * z \<rparr>"

text \<open>
  \<^verbatim>\<open>mat4.rotate(out, a, rad, axis)\<close> with \<^verbatim>\<open>out === a\<close>. An axis shorter than
  \<^verbatim>\<open>EPSILON\<close> makes the library return \<^verbatim>\<open>null\<close> and leave the matrix as it is; otherwise
  the axis is normalised and the first three columns are multiplied by the rotation.
\<close>

fun mat4_rotate :: "mat4 \<Rightarrow> real \<Rightarrow> vec3 \<Rightarrow> mat4" where
  "mat4_rotate a rad (x0, y0, z0) =
     (let len0 = sqrt (x0 * x0 + y0 * y0 + z0 * z0) in
      if len0 < EPSILON then a
      else
        let len = 1 / len0;
            x = x0 * len; y = y0 * len; z = z0 * len;
            s = sin rad; c = cos rad; t = 1 - c;
            b00 = x * x * t + c; b01 = y * x * t + z * s; b02 = z * x * t - y * s;
            b10 = x * y * t - z * s; b11 = y * y * t + c; b12 = z * y * t + x * s;
            b20 = x * z * t + y * s; b21 = y * z * t - x * s; b22 = z * z * t + c
        in a \<lparr> m0 := m0 a * b00 + m4 a * b01 + m8 a * b02,
                 m1 := m1 a * b00 + m5 a * b01 + m9 a * b02,
                 m2 := m2 a * b00 + m6 a * b01 + m10 a * b02,
                 m3 := m3 a * b00 + m7 a * b01 + m11 a * b02,
                 m4 := m0 a * b10 + m4 a * b11 + m8 a * b12,
                 m5 := m1 a * b10 + m5 a * b11 + m9 a * b12,
                 m6 := m2 a * b10 + m6 a * b11 + m10 a * b12,
                 m7 := m3 a * b10 + m7 a * b11 + m11 a * b12,
                 m8 := m0 a * b20 + m4 a * b21 + m8 a * b22,
                 m9 := m1 a * b20 + m5 a * b21 + m9 a * b22,
                 m10 := m2 a * b20 + m6 a * b21 + m10 a * b22,
                 m11 := m3 a * b20 + m7 a * b21 + m11 a * b22 \<rparr>)"

text \<open>The \<^verbatim>\<open>vec3\<close> functions the barbell placer calls.\<close>

fun vec3_subtract :: "vec3 \<Rightarrow> vec3 \<Rightarrow> vec3" where
  "vec3_subtract (ax, ay, az) (bx, by, bz) = (ax - bx, ay - by, az - bz)"

fun vec3_add :: "vec3 \<Rightarrow> vec3 \<Rightarrow> vec3" where
  "vec3_add (ax, ay, az) (bx, by, bz) = (ax + bx, ay + by, az + bz)"

fun vec3_scale :: "vec3 \<Rightarrow> real \<Rightarrow> vec3" where
  "vec3_scale (ax, ay, az) b = (ax * b, ay * b, az * b)"

fun vec3_length :: "vec3 \<Rightarrow> real" where
  "vec3_length (x, y, z) = sqrt (x * x + y * y + z * z)"

fun vec3_dot :: "vec3 \<Rightarrow> vec3 \<Rightarrow> real" where
  "vec3_dot (ax, ay, az) (bx, by, bz) = ax * bx + ay * by + az * bz"

fun vec3_cross :: "vec3 \<Rightarrow> vec3 \<Rightarrow> vec3" where
  "vec3_cross (ax, ay, az) (bx, by, bz) =
     (ay * bz - az * by, az * bx - ax * bz, ax * by - ay * bx)"

section \<open>The matrix stack\<close>

text \<open>
  \<^verbatim>\<open>class MatrixStack\<close> holds references: \<^verbatim>\<open>this.current\<close> is a matrix object that
  \<^verbatim>\<open>translate\<close>, \<^verbatim>\<open>rotate\<close>, \<^verbatim>\<open>scale\<close> and \<^verbatim>\<open>loadIdentity\<close> overwrite in place, and
  \<^verbatim>\<open>this.stack\<close> is an array of matrix objects made by \<^verbatim>\<open>mat4.clone\<close>. The model keeps
  the objects in a store: \<open>heap\<close> maps an address to the matrix stored there, \<open>stack\<close> and
  \<open>current\<close> are addresses. Nothing is required of a state: the current matrix may be an
  object of the history, and the history may hold an object twice. The array grows at its
  end, as \<^verbatim>\<open>Array.prototype.push\<close> does. \<open>drawn\<close> records the draw calls issued so far, each
  with the geometry drawn and the value of the current matrix handed to the renderer;
  \<open>warnings\<close> records the calls of \<^verbatim>\<open>console.warn\<close>.
\<close>

datatype vao = SphereVAO | CylVAO | SwordVAO | BarVAO | PlateVAO

datatype error = StackUnderflow

record MatrixStack =
  heap :: "nat \<Rightarrow> mat4"
  stack :: "nat list"
  current :: nat
  drawn :: "(vao \<times> mat4) list"
  warnings :: "string list"

type_synonym stmt = "MatrixStack \<Rightarrow> error + MatrixStack"

text \<open>\<^verbatim>\<open>constructor()\<close>: an empty history and a fresh identity matrix.\<close>

definition MatrixStack_new :: MatrixStack where
  "MatrixStack_new =
     \<lparr> heap = (\<lambda>_. mat4_create), stack = [], current = 0,
       drawn = [], warnings = [] \<rparr>"

text \<open>
  \<^verbatim>\<open>mat4.clone\<close> makes a new object. Its address is one that neither the current matrix nor
  an entry of the history has; the address of an object that is no longer referenced may
  be used again.
\<close>

definition fresh :: "MatrixStack \<Rightarrow> nat" where
  "fresh s = Suc (Max (set (current s # stack s)))"

text \<open>\<^verbatim>\<open>push()\<close>: \<^verbatim>\<open>this.stack.push(mat4.clone(this.current))\<close>.\<close>

definition push :: "MatrixStack \<Rightarrow> MatrixStack" where
  "push s =
     s \<lparr> heap := (heap s) (fresh s := heap s (current s)),
         stack := stack s @ [fresh s] \<rparr>"

text \<open>
  \<^verbatim>\<open>pop()\<close>: throws \<^verbatim>\<open>Error("Stack underflow")\<close> on an empty history, otherwise
  \<^verbatim>\<open>this.current = this.stack.pop()\<close>.
\<close>

definition pop :: stmt where
  "pop s =
     (if length (stack s) = 0 then Inl StackUnderflow
      else Inr (s \<lparr> current := last (stack s), stack := butlast (stack s) \<rparr>))"

text \<open>
  The methods that overwrite the current matrix in place. The drawing code calls
  \<^verbatim>\<open>mat4.translate(stk.current, stk.current, v)\<close> and its siblings directly; that is the
  body of the method of the same name (\<open>rotate_cur\<close> is the method \<^verbatim>\<open>rotate\<close>).
\<close>

definition loadIdentity :: "MatrixStack \<Rightarrow> MatrixStack" where
  "loadIdentity s = s \<lparr> heap := (heap s) (current s := mat4_create) \<rparr>"

definition translate :: "vec3 \<Rightarrow> MatrixStack \<Rightarrow> MatrixStack" where
  "translate v s = s \<lparr> heap := (heap s) (current s := mat4_translate (heap s (current s)) v) \<rparr>"

definition rotate_cur :: "real \<Rightarrow> vec3 \<Rightarrow> MatrixStack \<Rightarrow> MatrixStack" where
  "rotate_cur rad axis s =
     s \<lparr> heap := (heap s) (current s := mat4_rotate (heap s (current s)) rad axis) \<rparr>"

definition scale :: "vec3 \<Rightarrow> MatrixStack \<Rightarrow> MatrixStack" where
  "scale v s = s \<lparr> heap := (heap s) (current s := mat4_scale (heap s (current s)) v) \<rparr>"

text \<open>\<^verbatim>\<open>getCurrentMatrix()\<close> returns the current matrix object; the model reads its value.\<close>

definition getCurrentMatrix :: "MatrixStack \<Rightarrow> mat4" where
  "getCurrentMatrix s = heap s (current s)"

text \<open>
  \<^verbatim>\<open>drawVAO\<close> (\<^verbatim>\<open>drawGeometry\<close> in fencing.js) reads the current matrix and issues one draw
  call; the view and projection matrices it multiplies with belong to the renderer.
\<close>

definition drawVAO :: "vao \<Rightarrow> MatrixStack \<Rightarrow> MatrixStack" where
  "drawVAO g s = s \<lparr> drawn := drawn s @ [(g, getCurrentMatrix s)] \<rparr>"

text \<open>
  A function body is a list of statements run in order; a statement that throws ends the
  run with its error. \<open>ok\<close> lifts a statement that cannot throw.
\<close>

definition ok :: "(MatrixStack \<Rightarrow> MatrixStack) \<Rightarrow> stmt" where
  "ok f s = Inr (f s)"

fun run :: "stmt list \<Rightarrow> stmt" where
  "run [] s = Inr s"
| "run (f # fs) s = (case f s of Inl e \<Rightarrow> Inl e | Inr s' \<Rightarrow> run fs s')"

section \<open>fencing.js: the body-part drawers\<close>

text \<open>
  Each drawer is the list of the stack operations and draw calls of its body, in source
  order. \<^verbatim>\<open>side === "left" ? -1 : 1\<close> and \<^verbatim>\<open>side === "right"\<close> compare strings.
\<close>

definition HAND_RADIUS :: real where
  "HAND_RADIUS = 0.12"

definition drawBody :: stmt where
  "drawBody =
     run [ok push,
          ok (scale (0.5, 1.5, 0.25)),
          ok (drawVAO CylVAO),
          pop]"

definition drawHead :: "real \<Rightarrow> stmt" where
  "drawHead headTilt =
     run [ok push,
          ok (translate (0, 1.1, 0)),
          ok (rotate_cur headTilt (1, 0, 0)),
          ok (drawVAO SphereVAO),
          pop]"

definition drawArm :: "string \<Rightarrow> real \<Rightarrow> real \<Rightarrow> stmt" where
  "drawArm side shoulderAngle elbowAngle =
     (let sign = (if side = ''left'' then - 1 else 1);
          shoulderYOffset = 0.5;
          shoulderXOffset = 0.3;
          shoulderZOffset = 0.3;
          upperArmLength = 0.6;
          lowerArmLength = 0.6;
          jointSize = 0.1
      in run
        ([ok push,
          ok (translate (sign * shoulderXOffset, shoulderYOffset, sign * shoulderZOffset)),
          ok (rotate_cur shoulderAngle (0, 0, 1)),
          ok push,
          ok (scale (0.2, 0.2, 0.2)),
          ok (drawVAO SphereVAO),
          pop,
          ok push,
          ok (translate (0, - (jointSize + upperArmLength / 2), 0)),
          ok (scale (0.15, upperArmLength, 0.15)),
          ok (drawVAO CylVAO),
          pop,
          ok (translate (0, - (jointSize + upperArmLength + jointSize), 0)),
          ok (rotate_cur elbowAngle (0, 0, 1)),
          ok push,
          ok (scale (0.18, 0.18, 0.18)),
          ok (drawVAO SphereVAO),
          pop,
          ok push,
          ok (translate (0, - (jointSize + lowerArmLength / 2), 0))] @
         (if side = ''right'' then
            [ok push,
             ok (translate (0, - (lowerArmLength / 2 + jointSize), 0)),
             ok push,
             ok (scale (HAND_RADIUS, HAND_RADIUS, HAND_RADIUS)),
             ok (drawVAO SphereVAO),
             pop,
             ok (translate (0, - (jointSize + lowerArmLength), 0)),
             ok (drawVAO SwordVAO),
             pop]
          else []) @
         [ok (scale (0.12, lowerArmLength, 0.12)),
          ok (drawVAO CylVAO),
          pop,
          pop]))"

definition drawLeg :: "string \<Rightarrow> real \<Rightarrow> real \<Rightarrow> stmt" where
  "drawLeg side hipAngle kneeAngle =
     (let sign = (if side = ''left'' then - 1 else 1);
          hipYOffset = - 0.75;
          hipXOffset = 0.2;
          hipZOffset = 0.25;
          upperLegLength = 0.8;
          lowerLegLength = 0.7;
          jointSize = 0.125
      in run
        [ok push,
         ok (translate (sign * hipXOffset, hipYOffset, sign * hipZOffset)),
         ok (rotate_cur hipAngle (0, 0, 1)),
         ok push,
         ok (scale (0.25, 0.25, 0.25)),
         ok (drawVAO SphereVAO),
         pop,
         ok push,
         ok (translate (0, - (jointSize + upperLegLength / 2), 0)),
         ok (scale (0.18, upperLegLength, 0.18)),
         ok (drawVAO CylVAO),
         pop,
         ok (translate (0, - (jointSize + upperLegLength + jointSize), 0)),
         ok (rotate_cur kneeAngle (0, 0, 1)),
         ok push,
         ok (scale (0.2, 0.2, 0.2)),
         ok (drawVAO SphereVAO),
         pop,
         ok push,
         ok (translate (0, - (jointSize + lowerLegLength / 2), 0)),
         ok (scale (0.15, lowerLegLength, 0.15)),
         ok (drawVAO CylVAO),
         pop,
         ok (translate (0, - (jointSize + lowerLegLength), 0)),
         ok push,
         ok (scale (0.15, 0.15, 0.15)),
         ok (drawVAO SphereVAO),
         pop,
         pop])"

text \<open>
  The \<^verbatim>\<open>animations\<close> object: any of its properties may be missing, and
  \<^verbatim>\<open>animations.headTilt || 0\<close> reads a missing (or zero) property as \<open>0\<close>.
\<close>

record animations =
  headTilt :: "real option"
  leftShoulderAngle :: "real option"
  leftElbowAngle :: "real option"
  rightShoulderAngle :: "real option"
  rightElbowAngle :: "real option"
  leftHipAngle :: "real option"
  leftKneeAngle :: "real option"
  rightHipAngle :: "real option"
  rightKneeAngle :: "real option"

definition or_zero :: "real option \<Rightarrow> real" where
  "or_zero x = (case x of None \<Rightarrow> 0 | Some v \<Rightarrow> v)"

definition drawCharacter :: "animations \<Rightarrow> stmt" where
  "drawCharacter anim =
     run [ok push,
          drawBody,
          drawHead (or_zero (headTilt anim)),
          drawArm ''left'' (or_zero (leftShoulderAngle anim)) (or_zero (leftElbowAngle anim)),
          drawArm ''right'' (or_zero (rightShoulderAngle anim)) (or_zero (rightElbowAngle anim)),
          drawLeg ''left'' (or_zero (leftHipAngle anim)) (or_zero (leftKneeAngle anim)),
          drawLeg ''right'' (or_zero (rightHipAngle anim)) (or_zero (rightKneeAngle anim)),
          pop]"

subsection \<open>The running scene\<close>

text \<open>
  The running scene has the same \<^verbatim>\<open>drawBody\<close>, \<^verbatim>\<open>drawHead\<close>, \<^verbatim>\<open>drawLeg\<close> and
  \<^verbatim>\<open>drawCharacter\<close>, word for word; its \<^verbatim>\<open>drawArm\<close> has no hand and no sword.
\<close>

definition drawArm_run :: "string \<Rightarrow> real \<Rightarrow> real \<Rightarrow> stmt" where
  "drawArm_run side shoulderAngle elbowAngle =
     (let sign = (if side = ''left'' then - 1 else 1);
          shoulderYOffset = 0.5;
          shoulderXOffset = 0.3;
          shoulderZOffset = 0.3;
          upperArmLength = 0.6;
          lowerArmLength = 0.6;
          jointSize = 0.1
      in run
        [ok push,
         ok (translate (sign * shoulderXOffset, shoulderYOffset, sign * shoulderZOffset)),
         ok (rotate_cur shoulderAngle (0, 0, 1)),
         ok push,
         ok (scale (0.2, 0.2, 0.2)),
         ok (drawVAO SphereVAO),
         pop,
         ok push,
         ok (translate (0, - (jointSize + upperArmLength / 2), 0)),
         ok (scale (0.15, upperArmLength, 0.15)),
         ok (drawVAO CylVAO),
         pop,
         ok (translate (0, - (jointSize + upperArmLength + jointSize), 0)),
         ok (rotate_cur elbowAngle (0, 0, 1)),
         ok push,
         ok (scale (0.18, 0.18, 0.18)),
         ok (drawVAO SphereVAO),
         pop,
         ok push,
         ok (translate (0, - (jointSize + lowerArmLength / 2), 0)),
         ok (scale (0.12, lowerArmLength, 0.12)),
         ok (drawVAO CylVAO),
         pop,
         pop])"

definition drawCharacter_run :: "animations \<Rightarrow> stmt" where
  "drawCharacter_run anim =
     run [ok push,
          drawBody,
          drawHead (or_zero (headTilt anim)),
          drawArm_run ''left'' (or_zero (leftShoulderAngle anim)) (or_zero (leftElbowAngle anim)),
          drawArm_run ''right'' (or_zero (rightShoulderAngle anim)) (or_zero (rightElbowAngle anim)),
          drawLeg ''left'' (or_zero (leftHipAngle anim)) (or_zero (leftKneeAngle anim)),
          drawLeg ''right'' (or_zero (rightHipAngle anim)) (or_zero (rightKneeAngle anim)),
          pop]"

section \<open>The lifting scene: body parts, hands and the barbell\<close>

text \<open>
  The second scene draws the same skeleton with its own drawers \<^verbatim>\<open>body\<close>, \<^verbatim>\<open>head\<close>,
  \<^verbatim>\<open>arm\<close> and \<^verbatim>\<open>leg\<close> on the global stack \<^verbatim>\<open>stk\<close>. A pose is an object with twelve
  joint angles; \<^verbatim>\<open>interpolatePose\<close> adds the lateral offsets to it.
\<close>

record pose =
  BODY_LEAN_X :: real
  BODY_LEAN_Y :: real
  BODY_LEAN_Z :: real
  HEAD_TILT :: real
  LEFT_SHOULDER :: real
  RIGHT_SHOULDER :: real
  LEFT_ELBOW :: real
  RIGHT_ELBOW :: real
  LEFT_HIP :: real
  RIGHT_HIP :: real
  LEFT_KNEE :: real
  RIGHT_KNEE :: real

record pose_sx = pose +
  RIGHT_ARM_SX :: real

record pose_lift = pose_sx +
  RIGHT_HIP_SX :: real

definition body :: stmt where
  "body =
     run [ok push,
          ok (scale (0.5, 1.5, 0.25)),
          ok (drawVAO CylVAO),
          pop]"

definition head :: "real \<Rightarrow> stmt" where
  "head tilt =
     run [ok push,
          ok (translate (0, 1.1, 0)),
          ok (rotate_cur tilt (1, 0, 0)),
          ok (drawVAO SphereVAO),
          pop]"

text \<open>
  \<^verbatim>\<open>arm\<close> returns \<^verbatim>\<open>handModel\<close>, a clone of the current matrix taken inside the scope of
  the hand sphere, before the two last \<^verbatim>\<open>pop()\<close>.
\<close>

definition arm :: "string \<Rightarrow> real \<Rightarrow> real \<Rightarrow> real \<Rightarrow> MatrixStack \<Rightarrow> error + (mat4 \<times> MatrixStack)" where
  "arm side shoulder elbow customSX s =
     (let sg = (if side = ''left'' then - 1 else 1);
          sY = 0.5; sX = customSX; sZ = 0.5; upper = 0.6; lower = 0.6; j = 0.1
      in case run
           [ok push,
            ok (translate (sX, sY, sg * sZ)),
            ok (rotate_cur shoulder (0, 0, 1)),
            ok push,
            ok (scale (0.2, 0.2, 0.2)),
            ok (drawVAO SphereVAO),
            pop,
            ok push,
            ok (translate (0, - (j + upper / 2), 0)),
            ok (scale (0.15, upper, 0.15)),
            ok (drawVAO CylVAO),
            pop,
            ok (translate (0, - (j + upper + j), 0)),
            ok (rotate_cur elbow (0, 0, 1)),
            ok push,
            ok (scale (0.18, 0.18, 0.18)),
            ok (drawVAO SphereVAO),
            pop,
            ok push,
            ok (translate (0, - (j + lower / 2), 0)),
            ok (scale (0.12, lower, 0.12)),
            ok (drawVAO CylVAO),
            pop,
            ok push,
            ok (translate (0, - (j + lower + j * 0.8), 0)),
            ok (scale (0.15, 0.15, 0.15)),
            ok (drawVAO SphereVAO)] s of
           Inl e \<Rightarrow> Inl e
         | Inr s1 \<Rightarrow>
             (let handModel = getCurrentMatrix s1
              in case run [pop, pop] s1 of
                   Inl e \<Rightarrow> Inl e
                 | Inr s2 \<Rightarrow> Inr (handModel, s2)))"

definition leg :: "string \<Rightarrow> real \<Rightarrow> real \<Rightarrow> real \<Rightarrow> stmt" where
  "leg side hip knee customSX =
     (let sg = (if side = ''left'' then - 1 else 1);
          hY = - 0.75; hX = customSX; hZ = 0.25; upper = 0.8; lower = 0.7; j = 0.125
      in run
        [ok push,
         ok (translate (hX, hY, sg * hZ)),
         ok (rotate_cur hip (0, 0, 1)),
         ok push,
         ok (scale (0.25, 0.25, 0.25)),
         ok (drawVAO SphereVAO),
         pop,
         ok push,
         ok (translate (0, - (j + upper / 2), 0)),
         ok (scale (0.18, upper, 0.18)),
         ok (drawVAO CylVAO),
         pop,
         ok (translate (0, - (j + upper + j), 0)),
         ok (rotate_cur knee (0, 0, 1)),
         ok push,
         ok (scale (0.2, 0.2, 0.2)),
         ok (drawVAO SphereVAO),
         pop,
         ok push,
         ok (translate (0, - (j + lower / 2), 0)),
         ok (scale (0.15, lower, 0.15)),
         ok (drawVAO CylVAO),
         pop,
         pop])"

text \<open>\<^verbatim>\<open>character(p)\<close> returns the two hand matrices \<^verbatim>\<open>{ leftHandM, rightHandM }\<close>.\<close>

definition character :: "pose_lift \<Rightarrow> MatrixStack \<Rightarrow> error + ((mat4 \<times> mat4) \<times> MatrixStack)" where
  "character p s =
     (case run [ok push, body, head (HEAD_TILT p)] s of
        Inl e \<Rightarrow> Inl e
      | Inr s1 \<Rightarrow>
          (case arm ''left'' (LEFT_SHOULDER p) (LEFT_ELBOW p) (RIGHT_ARM_SX p) s1 of
             Inl e \<Rightarrow> Inl e
           | Inr (leftHandM, s2) \<Rightarrow>
               (case arm ''right'' (RIGHT_SHOULDER p) (RIGHT_ELBOW p) (RIGHT_ARM_SX p) s2 of
                  Inl e \<Rightarrow> Inl e
                | Inr (rightHandM, s3) \<Rightarrow>
                    (case run [leg ''left'' (LEFT_HIP p) (LEFT_KNEE p) (- RIGHT_HIP_SX p),
                               leg ''right'' (RIGHT_HIP p) (RIGHT_KNEE p) (RIGHT_HIP_SX p),
                               pop] s3 of
                       Inl e \<Rightarrow> Inl e
                     | Inr s4 \<Rightarrow> Inr ((leftHandM, rightHandM), s4)))))"

subsection \<open>\<^verbatim>\<open>drawBarbell(L, R)\<close>\<close>

text \<open>
  The local values of \<^verbatim>\<open>drawBarbell\<close>, one definition for each. \<^verbatim>\<open>pL\<close> and \<^verbatim>\<open>pR\<close> are
  the translation columns of the two hand matrices.
\<close>

definition drawBarbell_pL :: "mat4 \<Rightarrow> vec3" where
  "drawBarbell_pL L = (m12 L, m13 L, m14 L)"

definition drawBarbell_pR :: "mat4 \<Rightarrow> vec3" where
  "drawBarbell_pR R = (m12 R, m13 R, m14 R)"

definition drawBarbell_len :: "mat4 \<Rightarrow> mat4 \<Rightarrow> real" where
  "drawBarbell_len L R = vec3_length (vec3_subtract (drawBarbell_pR R) (drawBarbell_pL L))"

text \<open>
  \<^verbatim>\<open>vec3.scale(dir, dir, 1 / len)\<close>: when the hands coincide, \<^verbatim>\<open>len\<close> is \<open>0\<close>, \<^verbatim>\<open>1 / len\<close>
  is infinite and every component of \<^verbatim>\<open>dir\<close> is \<^verbatim>\<open>0 * Infinity\<close>, not a number. \<open>None\<close>
  stands for that vector.
\<close>

definition drawBarbell_dir :: "mat4 \<Rightarrow> mat4 \<Rightarrow> vec3 option" where
  "drawBarbell_dir L R =
     (let len = drawBarbell_len L R
      in if len = 0 then None
         else Some (vec3_scale (vec3_subtract (drawBarbell_pR R) (drawBarbell_pL L)) (1 / len)))"

definition drawBarbell_mid :: "mat4 \<Rightarrow> mat4 \<Rightarrow> vec3" where
  "drawBarbell_mid L R = vec3_scale (vec3_add (drawBarbell_pL L) (drawBarbell_pR R)) 0.5"

definition up :: vec3 where
  "up = (0, 1, 0)"

text \<open>
  The rotation applied after the translation to \<^verbatim>\<open>mid\<close>, as the angle and the axis handed
  to \<^verbatim>\<open>mat4.rotate\<close>, or \<open>None\<close> when neither branch is taken. \<open>drawBarbell_rotation_of\<close>
  is the code from \<^verbatim>\<open>vec3.cross(axis, up, dir)\<close> to the end of the conditional, as a function
  of the value \<^verbatim>\<open>dir\<close> holds at that point. The argument of \<^verbatim>\<open>Math.acos\<close> is clamped by
  \<^verbatim>\<open>Math.min(Math.max(..., -1), 1)\<close>. The first branch normalises \<^verbatim>\<open>axis\<close> in place; the loop
  over the plates tests the same conditions and rotates about that same normalised axis.
  With a \<^verbatim>\<open>dir\<close> that is not a number, \<^verbatim>\<open>axisLen\<close> is not a number either and both
  comparisons are false.
\<close>

definition drawBarbell_rotation_of :: "vec3 \<Rightarrow> (real \<times> vec3) option" where
  "drawBarbell_rotation_of dir =
     (let axis = vec3_cross up dir;
          axisLen = vec3_length axis
      in if axisLen > 1 / 100000 then
           (let ang = arccos (min (max (vec3_dot up dir) (- 1)) 1)
            in Some (ang, vec3_scale axis (1 / axisLen)))
         else if vec3_dot up dir < 0 then Some (pi, (1, 0, 0))
         else None)"

definition drawBarbell_rotation :: "mat4 \<Rightarrow> mat4 \<Rightarrow> (real \<times> vec3) option" where
  "drawBarbell_rotation L R =
     (case drawBarbell_dir L R of
        None \<Rightarrow> None
      | Some dir \<Rightarrow> drawBarbell_rotation_of dir)"

definition drawBarbell_orient :: "mat4 \<Rightarrow> mat4 \<Rightarrow> stmt list" where
  "drawBarbell_orient L R =
     (case drawBarbell_rotation L R of
        None \<Rightarrow> []
      | Some (ang, axis) \<Rightarrow> [ok (rotate_cur ang axis)])"

text \<open>The closing check: \<^verbatim>\<open>if (stk.stack.length !== stkTop) console.warn(...)\<close>.\<close>

definition leak_check :: "nat \<Rightarrow> MatrixStack \<Rightarrow> MatrixStack" where
  "leak_check stkTop s =
     (if length (stack s) \<noteq> stkTop
      then s \<lparr> warnings := warnings s @ [''Matrix stack leak in drawBarbell!''] \<rparr>
      else s)"

definition drawBarbell :: "mat4 \<Rightarrow> mat4 \<Rightarrow> stmt" where
  "drawBarbell L R s =
     (let len = drawBarbell_len L R;
          mid = drawBarbell_mid L R;
          stkTop = length (stack s);
          plateOffset = len - 0.05
      in run
        ([ok push,
          ok (translate mid)] @
         drawBarbell_orient L R @
         [ok (scale (1, len, 1)),
          ok (drawVAO BarVAO),
          pop] @
         concat (map (\<lambda>sign.
           [ok push,
            ok (translate mid)] @
           drawBarbell_orient L R @
           [ok (translate (0, sign * plateOffset, 0)),
            ok (drawVAO PlateVAO),
            pop]) [1, - 1]) @
         [ok (leak_check stkTop)]) s)"

section \<open>The spike scene: body parts\<close>

text \<open>
  The spike scene (the second program of fencing.js) has the same \<^verbatim>\<open>body\<close> and \<^verbatim>\<open>head\<close>
  as the lifting scene. Its \<^verbatim>\<open>arm\<close> mirrors the lateral offset with the side, draws no
  hand and returns nothing; its \<^verbatim>\<open>leg\<close> has no lateral offset.
\<close>

definition arm_spike :: "string \<Rightarrow> real \<Rightarrow> real \<Rightarrow> real \<Rightarrow> stmt" where
  "arm_spike side shoulder elbow customSX =
     (let sg = (if side = ''left'' then - 1 else 1);
          sY = 0.5; sX = customSX; sZ = 0.3; upper = 0.6; lower = 0.6; j = 0.1
      in run
        [ok push,
         ok (translate (sg * sX, sY, sg * sZ)),
         ok (rotate_cur shoulder (0, 0, 1)),
         ok push,
         ok (scale (0.2, 0.2, 0.2)),
         ok (drawVAO SphereVAO),
         pop,
         ok push,
         ok (translate (0, - (j + upper / 2), 0)),
         ok (scale (0.15, upper, 0.15)),
         ok (drawVAO CylVAO),
         pop,
         ok (translate (0, - (j + upper + j), 0)),
         ok (rotate_cur elbow (0, 0, 1)),
         ok push,
         ok (scale (0.18, 0.18, 0.18)),
         ok (drawVAO SphereVAO),
         pop,
         ok push,
         ok (translate (0, - (j + lower / 2), 0)),
         ok (scale (0.12, lower, 0.12)),
         ok (drawVAO CylVAO),
         pop,
         pop])"

definition leg_spike :: "string \<Rightarrow> real \<Rightarrow> real \<Rightarrow> stmt" where
  "leg_spike side hip knee =
     (let sg = (if side = ''left'' then - 1 else 1);
          hY = - 0.75; hX = 0; hZ = 0.25; upper = 0.8; lower = 0.7; j = 0.125
      in run
        [ok push,
         ok (translate (sg * hX, hY, sg * hZ)),
         ok (rotate_cur hip (0, 0, 1)),
         ok push,
         ok (scale (0.25, 0.25, 0.25)),
         ok (drawVAO SphereVAO),
         pop,
         ok push,
         ok (translate (0, - (j + upper / 2), 0)),
         ok (scale (0.18, upper, 0.18)),
         ok (drawVAO CylVAO),
         pop,
         ok (translate (0, - (j + upper + j), 0)),
         ok (rotate_cur knee (0, 0, 1)),
         ok push,
         ok (scale (0.2, 0.2, 0.2)),
         ok (drawVAO SphereVAO),
         pop,
         ok push,
         ok (translate (0, - (j + lower / 2), 0)),
         ok (scale (0.15, lower, 0.15)),
         ok (drawVAO CylVAO),
         pop,
         pop])"

definition character_spike :: "pose_sx \<Rightarrow> stmt" where
  "character_spike p =
     run [ok push,
          body,
          head (HEAD_TILT p),
          arm_spike ''left'' (LEFT_SHOULDER p) (LEFT_ELBOW p) (RIGHT_ARM_SX p),
          arm_spike ''right'' (RIGHT_SHOULDER p) (RIGHT_ELBOW p) (RIGHT_ARM_SX p),
          leg_spike ''left'' (LEFT_HIP p) (LEFT_KNEE p),
          leg_spike ''right'' (RIGHT_HIP p) (RIGHT_KNEE p),
          pop]"

section \<open>fencing.js: the geometry builders\<close>

text \<open>
  A geometry is three flat arrays: three numbers for each vertex position, three for each
  normal, and the triangle indices, stored in a \<^verbatim>\<open>Uint16Array\<close>. The band and segment
  counts are natural numbers. Each \<^verbatim>\<open>for\<close> loop is a \<open>fold\<close> over its range, with the
  arrays it appends to as the accumulator. With a count or a height of zero the source
  divides by zero and appends values that are not numbers where the model appends some
  real; it appends as many of them.
\<close>

record geometry =
  vertices :: "real list"
  normals :: "real list"
  indices :: "16 word list"

definition createSphere :: "real \<Rightarrow> nat \<Rightarrow> nat \<Rightarrow> geometry" where
  "createSphere radius latBands longBands =
     (let (vertices, normals) =
            fold (\<lambda>lat.
              let theta = real lat * pi / real latBands;
                  sinTheta = sin theta;
                  cosTheta = cos theta
              in fold (\<lambda>lon (vertices, normals).
                   let phi = real lon * 2 * pi / real longBands;
                       sinPhi = sin phi;
                       cosPhi = cos phi;
                       x = cosPhi * sinTheta;
                       y = cosTheta;
                       z = sinPhi * sinTheta
                   in (vertices @ [radius * x, radius * y, radius * z],
                       normals @ [x, y, z]))
                 [0..<Suc longBands])
              [0..<Suc latBands] ([], []);
          indices =
            fold (\<lambda>lat.
              fold (\<lambda>lon indices.
                   let first = lat * (longBands + 1) + lon;
                       second = first + longBands + 1
                   in indices @ [first, second, first + 1, second, second + 1, first + 1])
                 [0..<longBands])
              [0..<latBands] []
      in \<lparr> vertices = vertices, normals = normals, indices = map of_nat indices \<rparr>)"

text \<open>
  The two blocks of \<^verbatim>\<open>createCylinder\<close> under \<^verbatim>\<open>if (!openEnded)\<close>, each on the arrays
  built so far: the centre of the cap, then the rim, with one triangle for each rim vertex
  but the first.
\<close>

definition topCap :: "real \<Rightarrow> real \<Rightarrow> nat \<Rightarrow> real \<Rightarrow>
    real list \<times> real list \<times> nat list \<Rightarrow> real list \<times> real list \<times> nat list" where
  "topCap radiusTop halfHeight radialSegments thetaLength = (\<lambda>(vertices, normals, indices).
     (let topCapBaseIndex = length vertices div 3;
          vertices = vertices @ [0, halfHeight, 0];
          normals = normals @ [0, 1, 0]
      in fold (\<lambda>i (vertices, normals, indices).
           let theta = (real i * thetaLength) / real radialSegments;
               x = radiusTop * sin theta;
               z = radiusTop * cos theta;
               vertices = vertices @ [x, halfHeight, z];
               normals = normals @ [0, 1, 0]
           in (vertices, normals,
               if i > 0 then
                 indices @ [topCapBaseIndex, topCapBaseIndex + i, topCapBaseIndex + i + 1]
               else indices))
         [0..<Suc radialSegments] (vertices, normals, indices)))"

definition bottomCap :: "real \<Rightarrow> real \<Rightarrow> nat \<Rightarrow> real \<Rightarrow>
    real list \<times> real list \<times> nat list \<Rightarrow> real list \<times> real list \<times> nat list" where
  "bottomCap radiusBottom halfHeight radialSegments thetaLength = (\<lambda>(vertices, normals, indices).
     (let bottomCapBaseIndex = length vertices div 3;
          vertices = vertices @ [0, - halfHeight, 0];
          normals = normals @ [0, - 1, 0]
      in fold (\<lambda>i (vertices, normals, indices).
           let theta = (real i * thetaLength) / real radialSegments;
               x = radiusBottom * sin theta;
               z = radiusBottom * cos theta;
               vertices = vertices @ [x, - halfHeight, z];
               normals = normals @ [0, - 1, 0]
           in (vertices, normals,
               if i > 0 then
                 indices @ [bottomCapBaseIndex, bottomCapBaseIndex + i + 1, bottomCapBaseIndex + i]
               else indices))
         [0..<Suc radialSegments] (vertices, normals, indices)))"

definition createCylinder :: "real \<Rightarrow> real \<Rightarrow> real \<Rightarrow> nat \<Rightarrow> nat \<Rightarrow> bool \<Rightarrow> geometry" where
  "createCylinder radiusTop radiusBottom height radialSegments heightSegments openEnded =
     (let halfHeight = height / 2;
          thetaLength = pi * 2;
          (vertices, normals) =
            fold (\<lambda>y.
              let v = real y / real heightSegments;
                  radius = v * (radiusBottom - radiusTop) + radiusTop;
                  yPos = halfHeight - v * height
              in fold (\<lambda>x (vertices, normals).
                   let u = real x / real radialSegments;
                       theta = u * thetaLength;
                       sinTheta = sin theta;
                       cosTheta = cos theta;
                       normalX = sinTheta;
                       normalY = (radiusBottom - radiusTop) / height;
                       normalZ = cosTheta;
                       length = sqrt (normalX * normalX + normalY * normalY + normalZ * normalZ)
                   in (vertices @ [radius * sinTheta, yPos, radius * cosTheta],
                       normals @ [normalX / length, normalY / length, normalZ / length]))
                 [0..<Suc radialSegments])
              [0..<Suc heightSegments] ([], []);
          indices =
            fold (\<lambda>y.
              fold (\<lambda>x indices.
                   let vertex1 = y * (radialSegments + 1) + x;
                       vertex2 = vertex1 + radialSegments + 1
                   in indices @ [vertex1, vertex2, vertex1 + 1, vertex2, vertex2 + 1, vertex1 + 1])
                 [0..<radialSegments])
              [0..<heightSegments] [];
          (vertices, normals, indices) =
            (if \<not> openEnded then
               bottomCap radiusBottom halfHeight radialSegments thetaLength
                 (topCap radiusTop halfHeight radialSegments thetaLength
                    (vertices, normals, indices))
             else (vertices, normals, indices))
      in \<lparr> vertices = vertices, normals = normals, indices = map of_nat indices \<rparr>)"

section \<open>Pose interpolation\<close>

text \<open>
  \<^verbatim>\<open>deg\<close>, \<^verbatim>\<open>lerp\<close> and the \<^verbatim>\<open>interpolatePose\<close> of the spike scene, here as the formulas
  stand, over the reals.
\<close>

definition deg :: "real \<Rightarrow> real" where
  "deg a = a * pi / 180"

definition lerp :: "real \<Rightarrow> real \<Rightarrow> real \<Rightarrow> real" where
  "lerp a b t = a + (b - a) * t"

text \<open>
  \<^verbatim>\<open>for (const k in startPose) p[k] = lerp(startPose[k], endPose[k], t)\<close>: the loop runs
  over the twelve keys of the pose literal.
\<close>

definition lerp_keys :: "pose \<Rightarrow> pose \<Rightarrow> real \<Rightarrow> pose" where
  "lerp_keys a b t =
     \<lparr> BODY_LEAN_X = lerp (BODY_LEAN_X a) (BODY_LEAN_X b) t,
       BODY_LEAN_Y = lerp (BODY_LEAN_Y a) (BODY_LEAN_Y b) t,
       BODY_LEAN_Z = lerp (BODY_LEAN_Z a) (BODY_LEAN_Z b) t,
       HEAD_TILT = lerp (HEAD_TILT a) (HEAD_TILT b) t,
       LEFT_SHOULDER = lerp (LEFT_SHOULDER a) (LEFT_SHOULDER b) t,
       RIGHT_SHOULDER = lerp (RIGHT_SHOULDER a) (RIGHT_SHOULDER b) t,
       LEFT_ELBOW = lerp (LEFT_ELBOW a) (LEFT_ELBOW b) t,
       RIGHT_ELBOW = lerp (RIGHT_ELBOW a) (RIGHT_ELBOW b) t,
       LEFT_HIP = lerp (LEFT_HIP a) (LEFT_HIP b) t,
       RIGHT_HIP = lerp (RIGHT_HIP a) (RIGHT_HIP b) t,
       LEFT_KNEE = lerp (LEFT_KNEE a) (LEFT_KNEE b) t,
       RIGHT_KNEE = lerp (RIGHT_KNEE a) (RIGHT_KNEE b) t \<rparr>"

subsection \<open>The spike scene (second program of fencing.js)\<close>

definition startPose_spike :: pose where
  "startPose_spike =
     \<lparr> BODY_LEAN_X = deg 0, BODY_LEAN_Y = deg 0, BODY_LEAN_Z = deg 30, HEAD_TILT = deg (- 15),
       LEFT_SHOULDER = deg 100, RIGHT_SHOULDER = deg (- 80),
       LEFT_ELBOW = deg 15, RIGHT_ELBOW = deg (- 125),
       LEFT_HIP = deg (- 60), RIGHT_HIP = deg (- 30),
       LEFT_KNEE = deg (- 70), RIGHT_KNEE = deg (- 30) \<rparr>"

definition endPose_spike :: pose where
  "endPose_spike =
     \<lparr> BODY_LEAN_X = deg 0, BODY_LEAN_Y = deg 0, BODY_LEAN_Z = deg (- 20), HEAD_TILT = deg (- 15),
       LEFT_SHOULDER = deg 0, RIGHT_SHOULDER = deg (- 310),
       LEFT_ELBOW = deg 70, RIGHT_ELBOW = deg 0,
       LEFT_HIP = deg 60, RIGHT_HIP = deg 60,
       LEFT_KNEE = deg (- 10), RIGHT_KNEE = deg (- 70) \<rparr>"

definition SX_START :: real where
  "SX_START = - 0.3"

definition SX_END :: real where
  "SX_END = 0.3"

definition SHOULDER_LIMIT :: real where
  "SHOULDER_LIMIT = deg (- 160)"

definition interpolatePose_spike :: "real \<Rightarrow> pose_sx" where
  "interpolatePose_spike t =
     (let p = lerp_keys startPose_spike endPose_spike t;
          sh = RIGHT_SHOULDER p
      in if sh > SHOULDER_LIMIT then
           (let k = (sh - RIGHT_SHOULDER startPose_spike) /
                    (SHOULDER_LIMIT - RIGHT_SHOULDER startPose_spike)
            in pose.extend (p \<lparr> RIGHT_ELBOW := lerp (RIGHT_ELBOW startPose_spike) 0 k \<rparr>)
                 (pose_sx.fields (lerp SX_START SX_END k)))
         else
           pose.extend (p \<lparr> RIGHT_ELBOW := 0 \<rparr>) (pose_sx.fields SX_END))"

section \<open>Double-precision arithmetic\<close>

text \<open>
  A JavaScript number is an IEEE 754 binary64 value, and \<^verbatim>\<open>+\<close>, \<^verbatim>\<open>-\<close>, \<^verbatim>\<open>*\<close> and \<^verbatim>\<open>/\<close> return
  the exact result rounded to the nearest such value, ties to the even significand.
  Whether two computed numbers are equal depends on that rounding, so the interpolation
  of the poses and the clock of the render loop are given here a second time with every
  operation rounded.

  A finite binary64 value is an integer multiple of a power of two: \<open>m * 2 ^ e\<close> with
  \<open>\<bar>m\<bar> < 2 ^ 53\<close> and \<open>- 1074 \<le> e\<close>. \<open>binade n x\<close> is the exponent \<open>b\<close> with
  \<open>2 ^ b \<le> x < 2 ^ (b + 1)\<close>, found by halving or doubling \<open>x\<close> at most \<open>n\<close> times;
  \<open>ulp_exponent x\<close> is the exponent of the spacing of the binary64 values around \<open>x\<close>,
  \<open>52\<close> below the binade and not below \<open>- 1074\<close>, where the subnormal values lie; and
  \<open>fl x\<close> is the multiple of that spacing nearest to \<open>x\<close>. Magnitudes of \<open>2 ^ 1024\<close> and
  above, which round to \<^verbatim>\<open>Infinity\<close>, and the sign of a zero are not modelled; the two scenes
  stay far below the one, and \<^verbatim>\<open>===\<close> and \<^verbatim>\<open>>\<close> do not see the other.
\<close>

fun binade :: "nat \<Rightarrow> real \<Rightarrow> int" where
  "binade 0 x = 0"
| "binade (Suc n) x =
     (if 2 \<le> x then binade n (x / 2) + 1
      else if x < 1 then binade n (2 * x) - 1
      else 0)"

definition round_even :: "real \<Rightarrow> int" where
  "round_even q =
     (let f = \<lfloor>q\<rfloor>; r = q - of_int f
      in if r < 1 / 2 then f
         else if 1 / 2 < r then f + 1
         else if even f then f else f + 1)"

definition ulp_exponent :: "real \<Rightarrow> int" where
  "ulp_exponent x = max (binade 1100 \<bar>x\<bar>) (- 1022) - 52"

definition fl :: "real \<Rightarrow> real" where
  "fl x = of_int (round_even (x / 2 powi ulp_exponent x)) * 2 powi ulp_exponent x"

definition fadd :: "real \<Rightarrow> real \<Rightarrow> real" where
  "fadd a b = fl (a + b)"

definition fsub :: "real \<Rightarrow> real \<Rightarrow> real" where
  "fsub a b = fl (a - b)"

definition fmul :: "real \<Rightarrow> real \<Rightarrow> real" where
  "fmul a b = fl (a * b)"

definition fdiv :: "real \<Rightarrow> real \<Rightarrow> real" where
  "fdiv a b = fl (a / b)"

text \<open>
  \<^verbatim>\<open>Math.PI\<close> is the binary64 value nearest to \<open>pi\<close>, \<open>3.141592653589793\<close>, which is
  \<open>884279719003555 / 2 ^ 48\<close>.
\<close>

definition Math_PI :: real where
  "Math_PI = 884279719003555 / 2 ^ 48"

subsection \<open>Pose interpolation in double precision\<close>

text \<open>
  \<^verbatim>\<open>deg = (d) => (d * Math.PI) / 180\<close> and \<^verbatim>\<open>lerp = (a, b, t) => a + (b - a) * t\<close>, each
  operation rounded. The literals \<^verbatim>\<open>0.3\<close> and \<^verbatim>\<open>0.2\<close> are read as the nearest binary64
  values; the whole numbers of degrees, \<^verbatim>\<open>180\<close>, \<^verbatim>\<open>0\<close> and \<^verbatim>\<open>1\<close> are binary64 values as
  they stand.
\<close>

definition deg64 :: "real \<Rightarrow> real" where
  "deg64 d = fdiv (fmul d Math_PI) 180"

definition lerp64 :: "real \<Rightarrow> real \<Rightarrow> real \<Rightarrow> real" where
  "lerp64 a b t = fadd a (fmul (fsub b a) t)"

definition lerp_keys64 :: "pose \<Rightarrow> pose \<Rightarrow> real \<Rightarrow> pose" where
  "lerp_keys64 a b t =
     \<lparr> BODY_LEAN_X = lerp64 (BODY_LEAN_X a) (BODY_LEAN_X b) t,
       BODY_LEAN_Y = lerp64 (BODY_LEAN_Y a) (BODY_LEAN_Y b) t,
       BODY_LEAN_Z = lerp64 (BODY_LEAN_Z a) (BODY_LEAN_Z b) t,
       HEAD_TILT = lerp64 (HEAD_TILT a) (HEAD_TILT b) t,
       LEFT_SHOULDER = lerp64 (LEFT_SHOULDER a) (LEFT_SHOULDER b) t,
       RIGHT_SHOULDER = lerp64 (RIGHT_SHOULDER a) (RIGHT_SHOULDER b) t,
       LEFT_ELBOW = lerp64 (LEFT_ELBOW a) (LEFT_ELBOW b) t,
       RIGHT_ELBOW = lerp64 (RIGHT_ELBOW a) (RIGHT_ELBOW b) t,
       LEFT_HIP = lerp64 (LEFT_HIP a) (LEFT_HIP b) t,
       RIGHT_HIP = lerp64 (RIGHT_HIP a) (RIGHT_HIP b) t,
       LEFT_KNEE = lerp64 (LEFT_KNEE a) (LEFT_KNEE b) t,
       RIGHT_KNEE = lerp64 (RIGHT_KNEE a) (RIGHT_KNEE b) t \<rparr>"

text \<open>The spike scene.\<close>

definition startPose_spike64 :: pose where
  "startPose_spike64 =
     \<lparr> BODY_LEAN_X = deg64 0, BODY_LEAN_Y = deg64 0, BODY_LEAN_Z = deg64 30,
       HEAD_TILT = deg64 (- 15),
       LEFT_SHOULDER = deg64 100, RIGHT_SHOULDER = deg64 (- 80),
       LEFT_ELBOW = deg64 15, RIGHT_ELBOW = deg64 (- 125),
       LEFT_HIP = deg64 (- 60), RIGHT_HIP = deg64 (- 30),
       LEFT_KNEE = deg64 (- 70), RIGHT_KNEE = deg64 (- 30) \<rparr>"

definition endPose_spike64 :: pose where
  "endPose_spike64 =
     \<lparr> BODY_LEAN_X = deg64 0, BODY_LEAN_Y = deg64 0, BODY_LEAN_Z = deg64 (- 20),
       HEAD_TILT = deg64 (- 15),
       LEFT_SHOULDER = deg64 0, RIGHT_SHOULDER = deg64 (- 310),
       LEFT_ELBOW = deg64 70, RIGHT_ELBOW = deg64 0,
       LEFT_HIP = deg64 60, RIGHT_HIP = deg64 60,
       LEFT_KNEE = deg64 (- 10), RIGHT_KNEE = deg64 (- 70) \<rparr>"

definition SX_START64 :: real where
  "SX_START64 = - fl 0.3"

definition SX_END64 :: real where
  "SX_END64 = fl 0.3"

definition SHOULDER_LIMIT64 :: real where
  "SHOULDER_LIMIT64 = deg64 (- 160)"

definition interpolatePose_spike64 :: "real \<Rightarrow> pose_sx" where
  "interpolatePose_spike64 t =
     (let p = lerp_keys64 startPose_spike64 endPose_spike64 t;
          sh = RIGHT_SHOULDER p
      in if sh > SHOULDER_LIMIT64 then
           (let k = fdiv (fsub sh (RIGHT_SHOULDER startPose_spike64))
                      (fsub SHOULDER_LIMIT64 (RIGHT_SHOULDER startPose_spike64))
            in pose.extend (p \<lparr> RIGHT_ELBOW := lerp64 (RIGHT_ELBOW startPose_spike64) 0 k \<rparr>)
                 (pose_sx.fields (lerp64 SX_START64 SX_END64 k)))
         else
           pose.extend (p \<lparr> RIGHT_ELBOW := 0 \<rparr>) (pose_sx.fields SX_END64))"

text \<open>The lifting scene.\<close>

definition startPose_lift64 :: pose where
  "startPose_lift64 =
     \<lparr> BODY_LEAN_X = deg64 0, BODY_LEAN_Y = deg64 0, BODY_LEAN_Z = deg64 0,
       HEAD_TILT = deg64 (- 15),
       LEFT_SHOULDER = deg64 20, RIGHT_SHOULDER = deg64 20,
       LEFT_ELBOW = deg64 140, RIGHT_ELBOW = deg64 140,
       LEFT_HIP = deg64 0, RIGHT_HIP = deg64 0,
       LEFT_KNEE = deg64 0, RIGHT_KNEE = deg64 0 \<rparr>"

definition endPose_lift64 :: pose where
  "endPose_lift64 =
     \<lparr> BODY_LEAN_X = deg64 0, BODY_LEAN_Y = deg64 0, BODY_LEAN_Z = deg64 0,
       HEAD_TILT = deg64 (- 15),
       LEFT_SHOULDER = deg64 180, RIGHT_SHOULDER = deg64 180,
       LEFT_ELBOW = deg64 0, RIGHT_ELBOW = deg64 0,
       LEFT_HIP = deg64 (- 40), RIGHT_HIP = deg64 50,
       LEFT_KNEE = deg64 (- 10), RIGHT_KNEE = deg64 (- 55) \<rparr>"

definition ARM_SX_START64 :: real where
  "ARM_SX_START64 = fl 0.2"

definition ARM_SX_END64 :: real where
  "ARM_SX_END64 = - fl 0.2"

definition LEG_SX_START64 :: real where
  "LEG_SX_START64 = 0"

definition LEG_SX_END64 :: real where
  "LEG_SX_END64 = fl 0.2"

definition interpolatePose_lift64 :: "real \<Rightarrow> pose_lift" where
  "interpolatePose_lift64 t =
     (let p = lerp_keys64 startPose_lift64 endPose_lift64 t;
          p = p \<lparr> RIGHT_ELBOW := lerp64 (RIGHT_ELBOW startPose_lift64) (RIGHT_ELBOW endPose_lift64) t \<rparr>;
          p = p \<lparr> LEFT_ELBOW := lerp64 (LEFT_ELBOW startPose_lift64) (LEFT_ELBOW endPose_lift64) t \<rparr>
      in pose_sx.extend (pose.extend p (pose_sx.fields (lerp64 ARM_SX_START64 ARM_SX_END64 t)))
           (pose_lift.fields (lerp64 LEG_SX_START64 LEG_SX_END64 t)))"

subsection \<open>The clock of the render loop\<close>

text \<open>
  Both scenes compute the interpolation parameter in \<^verbatim>\<open>render(now)\<close> the same way. The
  first frame sets \<^verbatim>\<open>startTime\<close> (\<^verbatim>\<open>!startTime\<close> holds for \<^verbatim>\<open>null\<close> and for \<open>0\<close>). The
  subtractions and the division are rounded. \<^verbatim>\<open>Math.floor\<close> gives an integer, and \<^verbatim>\<open>%\<close> is
  the remainder of the truncating division, with the sign of the dividend; both are
  exact.
\<close>

definition DURATION :: real where
  "DURATION = 1000"

definition LOOP :: bool where
  "LOOP = True"

definition js_rem :: "int \<Rightarrow> int \<Rightarrow> int" where
  "js_rem a b = sgn a * (\<bar>a\<bar> mod \<bar>b\<bar>)"

definition render_elapsed :: "real option \<Rightarrow> real \<Rightarrow> real option \<times> real" where
  "render_elapsed startTime now =
     (let startTime' = (case startTime of None \<Rightarrow> now | Some v \<Rightarrow> if v = 0 then now else v)
      in (Some startTime', fsub now startTime'))"

definition render_t :: "real \<Rightarrow> real" where
  "render_t elapsed =
     (let t = fdiv elapsed DURATION
      in if LOOP then
           (let cycle = \<lfloor>t\<rfloor>;
                t = fsub t (of_int cycle)
            in if js_rem cycle 2 = 1 then fsub 1 t else t)
         else min t 1)"

section \<open>The running scene: the gait of the render loop\<close>

text \<open>
  The local values \<^verbatim>\<open>render(time)\<close> of the running scene computes for a frame, each as a
  function of the frame time; the prefix \<open>run_\<close> keeps them apart from the properties of
  the \<^verbatim>\<open>animations\<close> object they are stored in.
\<close>

definition run_t :: "real \<Rightarrow> real" where
  "run_t time = (let time = time * 0.001; runSpeed = 10 in time * runSpeed)"

definition backLegMaxAngle :: real where
  "backLegMaxAngle = pi / 12"

definition frontLegMaxAngle :: real where
  "frontLegMaxAngle = pi / 2"

definition run_leftLegPhase :: "real \<Rightarrow> real" where
  "run_leftLegPhase time = sin (run_t time + pi)"

definition run_leftLegAngle :: "real \<Rightarrow> real" where
  "run_leftLegAngle time =
     (if run_leftLegPhase time < 0 then run_leftLegPhase time * backLegMaxAngle
      else run_leftLegPhase time * frontLegMaxAngle)"

definition run_rightLegPhase :: "real \<Rightarrow> real" where
  "run_rightLegPhase time = sin (run_t time)"

definition run_rightLegAngle :: "real \<Rightarrow> real" where
  "run_rightLegAngle time =
     (if run_rightLegPhase time < 0 then run_rightLegPhase time * backLegMaxAngle
      else run_rightLegPhase time * frontLegMaxAngle)"

definition run_leftArmAngle :: "real \<Rightarrow> real" where
  "run_leftArmAngle time =
     (let shoulderSwingAngle = pi / 2.5; shoulderLiftAngle = pi / 6
      in sin (run_t time) * shoulderSwingAngle +
         (if sin (run_t time) > 0 then shoulderLiftAngle else 0))"

definition run_rightArmAngle :: "real \<Rightarrow> real" where
  "run_rightArmAngle time =
     (let shoulderSwingAngle = pi / 2.5; shoulderLiftAngle = pi / 6
      in sin (run_t time + pi) * shoulderSwingAngle +
         (if sin (run_t time + pi) > 0 then shoulderLiftAngle else 0))"

definition run_leftElbowAngle :: "real \<Rightarrow> real" where
  "run_leftElbowAngle time =
     (let maxElbowBend = pi / 2; backElbowExtend = - pi / 4
      in if sin (run_t time) > 0 then sin (run_t time) * maxElbowBend
         else sin (run_t time) * backElbowExtend)"

definition run_rightElbowAngle :: "real \<Rightarrow> real" where
  "run_rightElbowAngle time =
     (let maxElbowBend = pi / 2; backElbowExtend = - pi / 4
      in if sin (run_t time + pi) > 0 then sin (run_t time + pi) * maxElbowBend
         else sin (run_t time + pi) * backElbowExtend)"

definition run_leftKneeAngle :: "real \<Rightarrow> real" where
  "run_leftKneeAngle time =
     (if run_leftLegPhase time > 0 then - (run_leftLegAngle time + pi / 4) else 0)"

definition run_rightKneeAngle :: "real \<Rightarrow> real" where
  "run_rightKneeAngle time =
     (if run_rightLegPhase time > 0 then - (run_rightLegAngle time + pi / 4) else 0)"

text \<open>The \<^verbatim>\<open>animations\<close> object handed to \<^verbatim>\<open>drawCharacter\<close> for the frame.\<close>

definition run_animations :: "real \<Rightarrow> animations" where
  "run_animations time =
     \<lparr> headTilt = Some (pi / 12),
       leftShoulderAngle = Some (run_leftArmAngle time),
       leftElbowAngle = Some (run_leftElbowAngle time),
       rightShoulderAngle = Some (run_rightArmAngle time),
       rightElbowAngle = Some (run_rightElbowAngle time),
       leftHipAngle = Some (run_leftLegAngle time),
       leftKneeAngle = Some (run_leftKneeAngle time),
       rightHipAngle = Some (run_rightLegAngle time),
       rightKneeAngle = Some (run_rightKneeAngle time) \<rparr>"

section \<open>Sequences of calls and invariants of the store\<close>

text \<open>
  The calls that overwrite the current matrix, as data, to speak about any sequence of
  them.
\<close>

datatype stack_call = Translate vec3 | Rotate real vec3 | Scale vec3 | LoadIdentity

fun call :: "stack_call \<Rightarrow> stmt" where
  "call (Translate v) = ok (translate v)"
| "call (Rotate rad axis) = ok (rotate_cur rad axis)"
| "call (Scale v) = ok (scale v)"
| "call LoadIdentity = ok loadIdentity"

text \<open>What a call makes of the value of the current matrix.\<close>

fun apply_call :: "stack_call \<Rightarrow> mat4 \<Rightarrow> mat4" where
  "apply_call (Translate v) m = mat4_translate m v"
| "apply_call (Rotate rad axis) m = mat4_rotate m rad axis"
| "apply_call (Scale v) m = mat4_scale m v"
| "apply_call LoadIdentity m = mat4_create"

text \<open>
  \<open>pushed d s0 s\<close>: the state \<open>s\<close> is \<open>d\<close> pushes above \<open>s0\<close>. The history of \<open>s0\<close> is
  still there, under \<open>d\<close> more entries. These are different objects, none of them the
  current matrix and none of them in the history of \<open>s0\<close>. The value the current matrix
  had in \<open>s0\<close> is held by the lowest of them or, when there is none, by the current
  matrix itself. The current matrix is the object it was in \<open>s0\<close> or an object that is not
  in the history of \<open>s0\<close>, and every object in that history, but the one that was current
  in \<open>s0\<close>, holds the matrix it held. No warning was logged on the way.
\<close>

definition pushed :: "nat \<Rightarrow> MatrixStack \<Rightarrow> MatrixStack \<Rightarrow> bool" where
  "pushed d s0 s \<longleftrightarrow>
     warnings s = warnings s0 \<and>
     (\<exists>extra. stack s = stack s0 @ extra \<and> length extra = d \<and>
        distinct (current s # extra) \<and> set extra \<inter> set (stack s0) = {} \<and>
        heap s (hd (extra @ [current s])) = heap s0 (current s0)) \<and>
     (current s = current s0 \<or> current s \<notin> set (stack s0)) \<and>
     (\<forall>a \<in> set (stack s0). a \<noteq> current s0 \<longrightarrow> heap s a = heap s0 a)"

text \<open>
  \<open>moves f d d'\<close>: started \<open>d\<close> pushes above any state, the statement \<open>f\<close> returns
  normally and ends \<open>d'\<close> pushes above that state.
\<close>

definition moves :: "stmt \<Rightarrow> nat \<Rightarrow> nat \<Rightarrow> bool" where
  "moves f d d' \<longleftrightarrow> (\<forall>s0 s. pushed d s0 s \<longrightarrow> (\<exists>s'. f s = Inr s' \<and> pushed d' s0 s'))"

section \<open>Theorems\<close>

subsection \<open>The depth discipline of the stack operations\<close>

lemma fresh_notin: "fresh s \<notin> set (current s # stack s)"
proof
  assume "fresh s \<in> set (current s # stack s)"
  then have "fresh s \<le> Max (set (current s # stack s))" by (intro Max_ge) simp_all
  then show False by (simp add: fresh_def)
qed

lemma fresh_neq_current: "fresh s \<noteq> current s"
  using fresh_notin [of s] by auto

lemma fresh_notin_stack: "fresh s \<notin> set (stack s)"
  using fresh_notin [of s] by auto

lemma pushedI:
  assumes "warnings s = warnings s0"
    and "stack s = stack s0 @ extra" and "length extra = d"
    and "distinct (current s # extra)" and "set extra \<inter> set (stack s0) = {}"
    and "heap s (hd (extra @ [current s])) = heap s0 (current s0)"
    and "current s = current s0 \<or> current s \<notin> set (stack s0)"
    and "\<And>a. a \<in> set (stack s0) \<Longrightarrow> a \<noteq> current s0 \<Longrightarrow> heap s a = heap s0 a"
  shows "pushed d s0 s"
  unfolding pushed_def using assms by blast

lemma pushed_refl: "pushed 0 s s"
  by (rule pushedI [where extra = "[]"]) simp_all

lemma moves_push: "moves (ok push) d (Suc d)"
  unfolding moves_def
proof (intro allI impI)
  fix s0 s
  assume "pushed d s0 s"
  then obtain extra where e: "warnings s = warnings s0"
    "stack s = stack s0 @ extra" "length extra = d"
    "distinct (current s # extra)" "set extra \<inter> set (stack s0) = {}"
    "heap s (hd (extra @ [current s])) = heap s0 (current s0)"
    "current s = current s0 \<or> current s \<notin> set (stack s0)"
    "\<forall>a \<in> set (stack s0). a \<noteq> current s0 \<longrightarrow> heap s a = heap s0 a"
    unfolding pushed_def by blast
  have n: "fresh s \<noteq> current s" "fresh s \<notin> set extra" "fresh s \<notin> set (stack s0)"
    using fresh_notin [of s] e(2) by auto
  have "pushed (Suc d) s0 (push s)"
  proof (rule pushedI [where extra = "extra @ [fresh s]"])
    show "warnings (push s) = warnings s0" using e(1) by (simp add: push_def)
    show "stack (push s) = stack s0 @ extra @ [fresh s]" using e(2) by (simp add: push_def)
    show "length (extra @ [fresh s]) = Suc d" using e(3) by simp
    show "distinct (current (push s) # extra @ [fresh s])"
      using e(4) n by (auto simp: push_def)
    show "set (extra @ [fresh s]) \<inter> set (stack s0) = {}" using e(5) n by simp
    show "heap (push s) (hd ((extra @ [fresh s]) @ [current (push s)])) = heap s0 (current s0)"
    proof (cases extra)
      case Nil
      then show ?thesis using e(6) by (simp add: push_def)
    next
      case (Cons x xs)
      then have "x \<noteq> fresh s" using n(2) by auto
      then show ?thesis using e(6) Cons by (simp add: push_def)
    qed
    show "current (push s) = current s0 \<or> current (push s) \<notin> set (stack s0)"
      using e(7) by (simp add: push_def)
    show "heap (push s) a = heap s0 a" if "a \<in> set (stack s0)" "a \<noteq> current s0" for a
      using that e(8) n(3) by (auto simp: push_def)
  qed
  then show "\<exists>s'. ok push s = Inr s' \<and> pushed (Suc d) s0 s'" by (simp add: ok_def)
qed

lemma moves_pop: "moves pop (Suc d) d"
  unfolding moves_def
proof (intro allI impI)
  fix s0 s
  assume "pushed (Suc d) s0 s"
  then obtain extra where e: "warnings s = warnings s0"
    "stack s = stack s0 @ extra" "length extra = Suc d"
    "distinct (current s # extra)" "set extra \<inter> set (stack s0) = {}"
    "heap s (hd (extra @ [current s])) = heap s0 (current s0)"
    "current s = current s0 \<or> current s \<notin> set (stack s0)"
    "\<forall>a \<in> set (stack s0). a \<noteq> current s0 \<longrightarrow> heap s a = heap s0 a"
    unfolding pushed_def by blast
  from e(3) obtain xs x where x: "extra = xs @ [x]"
    by (cases extra rule: rev_cases) auto
  define s' where "s' = s \<lparr> current := last (stack s), stack := butlast (stack s) \<rparr>"
  have p: "pop s = Inr s'" using x e(2) by (simp add: pop_def s'_def)
  have st: "stack s' = stack s0 @ xs" "current s' = x"
    using x e(2) by (simp_all add: s'_def butlast_append)
  have "pushed d s0 s'"
  proof (rule pushedI [where extra = xs])
    show "warnings s' = warnings s0" using e(1) by (simp add: s'_def)
    show "stack s' = stack s0 @ xs" by (rule st)
    show "length xs = d" using e(3) x by simp
    show "distinct (current s' # xs)" using e(4) x st(2) by auto
    show "set xs \<inter> set (stack s0) = {}" using e(5) x by auto
    have "hd (xs @ [current s']) = hd (extra @ [current s])"
      using x st(2) by (cases xs) auto
    then show "heap s' (hd (xs @ [current s'])) = heap s0 (current s0)"
      using e(6) by (simp add: s'_def)
    show "current s' = current s0 \<or> current s' \<notin> set (stack s0)"
      using e(5) x st(2) by auto
    show "heap s' a = heap s0 a" if "a \<in> set (stack s0)" "a \<noteq> current s0" for a
      using that e(8) by (simp add: s'_def)
  qed
  with p show "\<exists>s'. pop s = Inr s' \<and> pushed d s0 s'" by blast
qed

text \<open>Overwriting the current matrix in place, inside at least one push.\<close>

lemma pushed_mutate:
  assumes "pushed (Suc d) s0 s"
  shows "pushed (Suc d) s0 (s \<lparr> heap := (heap s) (current s := m) \<rparr>)"
proof -
  from assms obtain extra where e: "warnings s = warnings s0"
    "stack s = stack s0 @ extra" "length extra = Suc d"
    "distinct (current s # extra)" "set extra \<inter> set (stack s0) = {}"
    "heap s (hd (extra @ [current s])) = heap s0 (current s0)"
    "current s = current s0 \<or> current s \<notin> set (stack s0)"
    "\<forall>a \<in> set (stack s0). a \<noteq> current s0 \<longrightarrow> heap s a = heap s0 a"
    unfolding pushed_def by blast
  from e(3) obtain y ys where y: "extra = y # ys" by (cases extra) auto
  have ny: "y \<noteq> current s" using e(4) y by auto
  let ?s = "s \<lparr> heap := (heap s) (current s := m) \<rparr>"
  show ?thesis
  proof (rule pushedI [where extra = extra])
    show "warnings ?s = warnings s0" using e(1) by simp
    show "stack ?s = stack s0 @ extra" using e(2) by simp
    show "length extra = Suc d" by (rule e(3))
    show "distinct (current ?s # extra)" using e(4) by simp
    show "set extra \<inter> set (stack s0) = {}" by (rule e(5))
    show "heap ?s (hd (extra @ [current ?s])) = heap s0 (current s0)"
      using e(6) y ny by simp
    show "current ?s = current s0 \<or> current ?s \<notin> set (stack s0)" using e(7) by simp
    show "heap ?s a = heap s0 a" if "a \<in> set (stack s0)" "a \<noteq> current s0" for a
      using that e(7) e(8) by auto
  qed
qed

lemma moves_translate: "moves (ok (translate v)) (Suc d) (Suc d)"
  unfolding moves_def ok_def translate_def by (blast intro: pushed_mutate)

lemma moves_rotate_cur: "moves (ok (rotate_cur r v)) (Suc d) (Suc d)"
  unfolding moves_def ok_def rotate_cur_def by (blast intro: pushed_mutate)

lemma moves_scale: "moves (ok (scale v)) (Suc d) (Suc d)"
  unfolding moves_def ok_def scale_def by (blast intro: pushed_mutate)

lemma moves_loadIdentity: "moves (ok loadIdentity) (Suc d) (Suc d)"
  unfolding moves_def ok_def loadIdentity_def by (blast intro: pushed_mutate)

lemma moves_drawVAO: "moves (ok (drawVAO g)) d d"
  unfolding moves_def ok_def drawVAO_def pushed_def by simp

lemma moves_nil: "moves (run []) d d"
  unfolding moves_def by simp

lemma moves_cons: "moves f d d' \<Longrightarrow> moves (run fs) d' d'' \<Longrightarrow> moves (run (f # fs)) d d''"
  unfolding moves_def
proof (intro allI impI)
  fix s0 s
  assume f: "\<forall>s0 s. pushed d s0 s \<longrightarrow> (\<exists>s'. f s = Inr s' \<and> pushed d' s0 s')"
    and fs: "\<forall>s0 s. pushed d' s0 s \<longrightarrow> (\<exists>s'. run fs s = Inr s' \<and> pushed d'' s0 s')"
    and a: "pushed d s0 s"
  from f a obtain s1 where s1: "f s = Inr s1" "pushed d' s0 s1" by blast
  from fs s1(2) obtain s2 where s2: "run fs s1 = Inr s2" "pushed d'' s0 s2" by blast
  show "\<exists>s'. run (f # fs) s = Inr s' \<and> pushed d'' s0 s'"
    using s1(1) s2 by simp
qed

lemma pushed_trans:
  assumes "pushed d s0 s" and "pushed 0 s s'"
  shows "pushed d s0 s'"
proof -
  from assms(1) obtain extra where e: "warnings s = warnings s0"
    "stack s = stack s0 @ extra" "length extra = d"
    "distinct (current s # extra)" "set extra \<inter> set (stack s0) = {}"
    "heap s (hd (extra @ [current s])) = heap s0 (current s0)"
    "current s = current s0 \<or> current s \<notin> set (stack s0)"
    "\<forall>a \<in> set (stack s0). a \<noteq> current s0 \<longrightarrow> heap s a = heap s0 a"
    unfolding pushed_def by blast
  from assms(2) have f: "warnings s' = warnings s" "stack s' = stack s"
    "heap s' (current s') = heap s (current s)"
    "current s' = current s \<or> current s' \<notin> set (stack s)"
    "\<And>a. a \<in> set (stack s) \<Longrightarrow> a \<noteq> current s \<Longrightarrow> heap s' a = heap s a"
    unfolding pushed_def by auto
  show ?thesis
  proof (rule pushedI [where extra = extra])
    show "warnings s' = warnings s0" using e(1) f(1) by simp
    show "stack s' = stack s0 @ extra" using e(2) f(2) by simp
    show "length extra = d" by (rule e(3))
    show "distinct (current s' # extra)" using e(2) e(4) f(4) by auto
    show "set extra \<inter> set (stack s0) = {}" by (rule e(5))
    show "heap s' (hd (extra @ [current s'])) = heap s0 (current s0)"
    proof (cases extra)
      case Nil
      then show ?thesis using e(6) f(3) by simp
    next
      case (Cons y ys)
      then have "y \<in> set (stack s)" "y \<noteq> current s" using e(2) e(4) by auto
      then have "heap s' y = heap s y" by (rule f(5))
      then show ?thesis using e(6) Cons by simp
    qed
    show "current s' = current s0 \<or> current s' \<notin> set (stack s0)"
      using e(2) e(7) f(4) by auto
    show "heap s' a = heap s0 a" if a: "a \<in> set (stack s0)" "a \<noteq> current s0" for a
    proof -
      from a e(7) have "a \<noteq> current s" by auto
      moreover from a(1) e(2) have "a \<in> set (stack s)" by simp
      ultimately have "heap s' a = heap s a" by (intro f(5))
      with a e(8) show ?thesis by simp
    qed
  qed
qed

lemma moves_lift: "moves f 0 0 \<Longrightarrow> moves f d d"
  unfolding moves_def
proof (intro allI impI)
  fix s0 s
  assume f: "\<forall>s0 s. pushed 0 s0 s \<longrightarrow> (\<exists>s'. f s = Inr s' \<and> pushed 0 s0 s')"
    and a: "pushed d s0 s"
  have "pushed 0 s s" by (rule pushed_refl)
  with f obtain s' where "f s = Inr s'" "pushed 0 s s'" by blast
  with a show "\<exists>s'. f s = Inr s' \<and> pushed d s0 s'" by (blast intro: pushed_trans)
qed

lemma run_append:
  "run (xs @ ys) s = (case run xs s of Inl e \<Rightarrow> Inl e | Inr s' \<Rightarrow> run ys s')"
  by (induction xs arbitrary: s) (auto split: sum.splits)

lemma moves_append:
  "moves (run xs) d d' \<Longrightarrow> moves (run ys) d' d'' \<Longrightarrow> moves (run (xs @ ys)) d d''"
  unfolding moves_def
proof (intro allI impI)
  fix s0 s
  assume f: "\<forall>s0 s. pushed d s0 s \<longrightarrow> (\<exists>s'. run xs s = Inr s' \<and> pushed d' s0 s')"
    and fs: "\<forall>s0 s. pushed d' s0 s \<longrightarrow> (\<exists>s'. run ys s = Inr s' \<and> pushed d'' s0 s')"
    and a: "pushed d s0 s"
  from f a obtain s1 where s1: "run xs s = Inr s1" "pushed d' s0 s1" by blast
  from fs s1(2) obtain s2 where s2: "run ys s1 = Inr s2" "pushed d'' s0 s2" by blast
  show "\<exists>s'. run (xs @ ys) s = Inr s' \<and> pushed d'' s0 s'"
    using s1(1) s2 by (simp add: run_append)
qed

lemma moves_if:
  "moves (run xs) d d' \<Longrightarrow> moves (run ys) d d' \<Longrightarrow> moves (run (if c then xs else ys)) d d'"
  by simp

lemmas moves_prims = moves_cons moves_nil moves_append moves_if moves_push moves_pop
  moves_translate moves_rotate_cur moves_scale moves_loadIdentity moves_drawVAO

lemma moves_drawBody: "moves drawBody d d"
  unfolding drawBody_def by (rule moves_lift) (rule moves_prims)+

lemma moves_drawHead: "moves (drawHead t) d d"
  unfolding drawHead_def by (rule moves_lift) (rule moves_prims)+

lemma moves_drawArm: "moves (drawArm side a b) d d"
  unfolding drawArm_def Let_def by (rule moves_lift) (rule moves_prims)+

lemma moves_drawLeg: "moves (drawLeg side a b) d d"
  unfolding drawLeg_def Let_def by (rule moves_lift) (rule moves_prims)+

lemma moves_drawCharacter: "moves (drawCharacter anim) 0 0"
  unfolding drawCharacter_def
  by (rule moves_prims moves_drawBody moves_drawHead moves_drawArm moves_drawLeg)+

lemma moves_drawArm_run: "moves (drawArm_run side a b) d d"
  unfolding drawArm_run_def Let_def by (rule moves_lift) (rule moves_prims)+

lemma moves_drawCharacter_run: "moves (drawCharacter_run anim) 0 0"
  unfolding drawCharacter_run_def
  by (rule moves_prims moves_drawBody moves_drawHead moves_drawArm_run moves_drawLeg)+

lemma moves_body: "moves body d d"
  unfolding body_def by (rule moves_lift) (rule moves_prims)+

lemma moves_head: "moves (head t) d d"
  unfolding head_def by (rule moves_lift) (rule moves_prims)+

lemma moves_leg: "moves (leg side a b c) d d"
  unfolding leg_def Let_def by (rule moves_lift) (rule moves_prims)+

lemma moves_arm_spike: "moves (arm_spike side a b c) d d"
  unfolding arm_spike_def Let_def by (rule moves_lift) (rule moves_prims)+

lemma moves_leg_spike: "moves (leg_spike side a b) d d"
  unfolding leg_spike_def Let_def by (rule moves_lift) (rule moves_prims)+

lemma moves_character_spike: "moves (character_spike p) 0 0"
  unfolding character_spike_def
  by (rule moves_prims moves_body moves_head moves_arm_spike moves_leg_spike)+

lemma movesD: "moves f d d' \<Longrightarrow> pushed d s0 s \<Longrightarrow> \<exists>s'. f s = Inr s' \<and> pushed d' s0 s'"
  unfolding moves_def by blast

lemma arm_pushed:
  assumes "pushed d s0 s"
  shows "\<exists>h s'. arm side a b c s = Inr (h, s') \<and> pushed d s0 s'"
proof -
  let ?pre = "[ok push,
            ok (translate (c, 0.5, (if side = ''left'' then - 1 else 1) * 0.5)),
            ok (rotate_cur a (0, 0, 1)),
            ok push,
            ok (scale (0.2, 0.2, 0.2)),
            ok (drawVAO SphereVAO),
            pop,
            ok push,
            ok (translate (0, - (0.1 + 0.6 / 2), 0)),
            ok (scale (0.15, 0.6, 0.15)),
            ok (drawVAO CylVAO),
            pop,
            ok (translate (0, - (0.1 + 0.6 + 0.1), 0)),
            ok (rotate_cur b (0, 0, 1)),
            ok push,
            ok (scale (0.18, 0.18, 0.18)),
            ok (drawVAO SphereVAO),
            pop,
            ok push,
            ok (translate (0, - (0.1 + 0.6 / 2), 0)),
            ok (scale (0.12, 0.6, 0.12)),
            ok (drawVAO CylVAO),
            pop,
            ok push,
            ok (translate (0, - (0.1 + 0.6 + 0.1 * 0.8), 0)),
            ok (scale (0.15, 0.15, 0.15)),
            ok (drawVAO SphereVAO)]"
  have w: "pushed 0 s s" by (rule pushed_refl)
  have "moves (run ?pre) 0 2"
    unfolding numeral_2_eq_2 by (rule moves_prims)+
  from movesD[OF this w] obtain s1 where s1: "run ?pre s = Inr s1" "pushed 2 s s1" by blast
  have "moves (run [pop, pop]) 2 0"
    unfolding numeral_2_eq_2 by (rule moves_prims)+
  from movesD[OF this s1(2)] obtain s2 where s2: "run [pop, pop] s1 = Inr s2" "pushed 0 s s2" by blast
  have "arm side a b c s = Inr (getCurrentMatrix s1, s2)"
    unfolding arm_def Let_def using s1(1) s2(1) by simp
  moreover have "pushed d s0 s2" using assms s2(2) by (rule pushed_trans)
  ultimately show ?thesis by blast
qed

lemma character_pushed: "\<exists>h s'. character p s = Inr (h, s') \<and> pushed 0 s s'"
proof -
  have w: "pushed 0 s s" by (rule pushed_refl)
  have "moves (run [ok push, body, head (HEAD_TILT p)]) 0 1"
    unfolding One_nat_def by (rule moves_prims moves_body moves_head)+
  from movesD[OF this w] obtain s1 where s1: "run [ok push, body, head (HEAD_TILT p)] s = Inr s1" "pushed 1 s s1" by blast
  from arm_pushed[OF s1(2)] obtain hl s2 where s2: 
     "arm ''left'' (LEFT_SHOULDER p) (LEFT_ELBOW p) (RIGHT_ARM_SX p) s1 = Inr (hl, s2)" "pushed 1 s s2" by blast
  from arm_pushed[OF s2(2)] obtain hr s3 where s3: 
     "arm ''right'' (RIGHT_SHOULDER p) (RIGHT_ELBOW p) (RIGHT_ARM_SX p) s2 = Inr (hr, s3)" "pushed 1 s s3" by blast
  have "moves (run [leg ''left'' (LEFT_HIP p) (LEFT_KNEE p) (- RIGHT_HIP_SX p),
                               leg ''right'' (RIGHT_HIP p) (RIGHT_KNEE p) (RIGHT_HIP_SX p),
                               pop]) 1 0"
    unfolding One_nat_def by (rule moves_prims moves_leg)+
  from movesD[OF this s3(2)] obtain s4 where s4: "run [leg ''left'' (LEFT_HIP p) (LEFT_KNEE p) (- RIGHT_HIP_SX p),
                               leg ''right'' (RIGHT_HIP p) (RIGHT_KNEE p) (RIGHT_HIP_SX p),
                               pop] s3 = Inr s4" "pushed 0 s s4" by blast
  have "character p s = Inr ((hl, hr), s4)"
    unfolding character_def using s1(1) s2(1) s3(1) s4(1) by simp
  with s4(2) show ?thesis by blast
qed

lemma moves_orient: "moves (run (drawBarbell_orient L R)) (Suc d) (Suc d)"
  unfolding drawBarbell_orient_def 
  by (cases "drawBarbell_rotation L R") (auto intro: moves_prims)

lemma drawBarbell_pushed: "\<exists>s'. drawBarbell L R s = Inr s' \<and> pushed 0 s s'"
proof -
  define len where "len = drawBarbell_len L R"
  define mid where "mid = drawBarbell_mid L R"
  let ?main = "[ok push,
          ok (translate mid)] @
         drawBarbell_orient L R @
         [ok (scale (1, len, 1)),
          ok (drawVAO BarVAO),
          pop] @
         concat (map (\<lambda>sign.
           [ok push,
            ok (translate mid)] @
           drawBarbell_orient L R @
           [ok (translate (0, sign * (len - 0.05), 0)),
            ok (drawVAO PlateVAO),
            pop]) [1, - 1])"
  have w: "pushed 0 s s" by (rule pushed_refl)
  have "moves (run ?main) 0 0"
    unfolding list.map concat.simps by (rule moves_prims moves_orient)+
  from movesD[OF this w] obtain s1 where s1: "run ?main s = Inr s1" "pushed 0 s s1" by blast
  from s1(2) have "length (stack s1) = length (stack s)" by (simp add: pushed_def)
  then have lc: "leak_check (length (stack s)) s1 = s1" by (simp add: leak_check_def)
  have "drawBarbell L R s = run (?main @ [ok (leak_check (length (stack s)))]) s"
    unfolding drawBarbell_def Let_def len_def mid_def by (simp only: append_assoc)
  also have "\<dots> = Inr (leak_check (length (stack s)) s1)"
    unfolding run_append[of ?main] s1(1) by (simp add: ok_def)
  also have "\<dots> = Inr s1" using \<open>leak_check (length (stack s)) s1 = s1\<close> by simp
  finally have "drawBarbell L R s = Inr s1" .
  with s1(2) show ?thesis by blast
qed

lemma pushed_0D:
  assumes "pushed 0 s s'"
  shows "stack s' = stack s" and "getCurrentMatrix s' = getCurrentMatrix s"
    and "warnings s' = warnings s"
    and "current s \<notin> set (stack s) \<Longrightarrow> map (heap s') (stack s') = map (heap s) (stack s)"
proof -
  from assms show st: "stack s' = stack s" and "getCurrentMatrix s' = getCurrentMatrix s"
    and "warnings s' = warnings s"
    by (auto simp: pushed_def getCurrentMatrix_def)
  assume "current s \<notin> set (stack s)"
  with assms have "\<forall>a \<in> set (stack s). heap s' a = heap s a"
    by (auto simp: pushed_def)
  with st show "map (heap s') (stack s') = map (heap s) (stack s)" by simp
qed

lemma balanced_0D:
  assumes "pushed 0 s s'"
  shows "length (stack s') = length (stack s) \<and>
         getCurrentMatrix s' = getCurrentMatrix s \<and>
         warnings s' = warnings s \<and>
         (current s \<notin> set (stack s) \<longrightarrow> map (heap s') (stack s') = map (heap s) (stack s))"
  using pushed_0D [OF assms] by simp

lemma moves_call: "moves (call c) (Suc d) (Suc d)"
  by (cases c) (simp_all add: moves_translate moves_rotate_cur moves_scale moves_loadIdentity)

lemma moves_calls: "moves (run (map call cs)) (Suc d) (Suc d)"
proof (induction cs)
  case Nil
  show ?case unfolding list.map by (rule moves_nil)
next
  case (Cons c cs)
  show ?case unfolding list.map by (rule moves_cons [OF moves_call Cons.IH])
qed

lemma pushed_1D:
  assumes "pushed 1 s s1"
  shows "heap s1 (last (stack s1)) = getCurrentMatrix s"
proof -
  from assms obtain extra where e: "stack s1 = stack s @ extra" "length extra = 1"
    "heap s1 (hd (extra @ [current s1])) = heap s (current s)"
    unfolding pushed_def by blast
  from e(2) obtain x where "extra = [x]" by (cases extra) auto
  with e show ?thesis by (simp add: getCurrentMatrix_def)
qed

text \<open>
  A scope that draws: a push, calls that overwrite the current matrix, one draw call and
  the pop. It draws with the value of the current matrix after the calls, and leaves the
  current matrix with the value it had, in a new object.
\<close>

lemma call_overwrites:
  "call c s = Inr (s \<lparr> heap := (heap s) (current s := apply_call c (heap s (current s))) \<rparr>)"
  by (cases c)
     (simp_all add: ok_def translate_def rotate_cur_def scale_def loadIdentity_def
        del: mat4_translate.simps mat4_rotate.simps mat4_scale.simps)

lemma run_calls:
  "run (map call cs) s =
     Inr (s \<lparr> heap := (heap s) (current s := fold apply_call cs (heap s (current s))) \<rparr>)"
proof (induction cs arbitrary: s)
  case Nil
  show ?case by simp
next
  case (Cons c cs)
  let ?s1 = "s \<lparr> heap := (heap s) (current s := apply_call c (heap s (current s))) \<rparr>"
  have "run (map call (c # cs)) s = run (map call cs) ?s1"
    by (simp add: call_overwrites)
  also have "\<dots> = Inr (?s1 \<lparr> heap := (heap ?s1)
      (current ?s1 := fold apply_call cs (heap ?s1 (current ?s1))) \<rparr>)"
    by (rule Cons.IH)
  also have "?s1 \<lparr> heap := (heap ?s1)
      (current ?s1 := fold apply_call cs (heap ?s1 (current ?s1))) \<rparr> =
    s \<lparr> heap := (heap s) (current s := fold apply_call (c # cs) (heap s (current s))) \<rparr>"
    by (rule MatrixStack.equality) simp_all
  finally show ?case .
qed

lemma scope_draws:
  "\<exists>s'. run ([ok push] @ map call cs @ [ok (drawVAO g), pop]) s = Inr s' \<and>
     drawn s' = drawn s @ [(g, fold apply_call cs (getCurrentMatrix s))] \<and>
     getCurrentMatrix s' = getCurrentMatrix s \<and> stack s' = stack s"
  using fresh_neq_current [of s]
  by (simp add: run_append run_calls ok_def push_def pop_def drawVAO_def getCurrentMatrix_def)

subsection \<open>Interpolation over the reals\<close>

lemma lerp_0: "lerp a b 0 = a" by (simp add: lerp_def)

lemma shoulder_above_limit_iff: "RIGHT_SHOULDER (interpolatePose_spike t) > SHOULDER_LIMIT \<longleftrightarrow> t < 8 / 23"
proof -
  have "RIGHT_SHOULDER (interpolatePose_spike t) = (- 80 - 230 * t) * (pi / 180)"
    by (simp add: interpolatePose_spike_def Let_def pose.defs pose_sx.defs lerp_keys_def
         startPose_spike_def endPose_spike_def lerp_def deg_def algebra_simps)
  moreover have "SHOULDER_LIMIT = (- 160) * (pi / 180)" by (simp add: SHOULDER_LIMIT_def deg_def)
  moreover have "((- 160) * (pi / 180) < (- 80 - 230 * t) * (pi / 180)) \<longleftrightarrow> (- 160 < - 80 - 230 * t)"
    by (rule mult_less_cancel_right_pos) simp
  ultimately show ?thesis by auto
qed

subsection \<open>Rounding to binary64\<close>

text \<open>
  The nearest integer, ties to even: it is within a half of its argument, fixes the
  integers and is monotone.
\<close>

lemma round_even_of_int: "round_even (of_int n) = n"
  by (simp add: round_even_def)

lemma round_even_error: "\<bar>of_int (round_even q) - q\<bar> \<le> 1 / 2"
  unfolding round_even_def Let_def by (auto; linarith)

lemma round_even_le: "q \<le> of_int n \<Longrightarrow> round_even q \<le> n"
proof -
  assume q: "q \<le> of_int n"
  then have f: "\<lfloor>q\<rfloor> \<le> n" by (simp add: floor_le_iff)
  show ?thesis
  proof (cases "\<lfloor>q\<rfloor> = n")
    case True
    with q have "q = of_int n" by linarith
    then show ?thesis by (simp add: round_even_of_int)
  next
    case False
    with f have "\<lfloor>q\<rfloor> + 1 \<le> n" by simp
    then show ?thesis unfolding round_even_def Let_def by auto
  qed
qed

lemma round_even_ge: "of_int n \<le> q \<Longrightarrow> n \<le> round_even q"
proof -
  assume "of_int n \<le> q"
  then have "n \<le> \<lfloor>q\<rfloor>" by (simp add: le_floor_iff)
  then show ?thesis unfolding round_even_def Let_def by auto
qed

text \<open>
  The binade: with enough halvings and doublings allowed, \<open>binade n x\<close> is the exponent
  \<open>b\<close> with \<open>2 ^ b \<le> x < 2 ^ (b + 1)\<close>, and below the range it stays below.
\<close>

lemma powi_pred: "(2::real) powi (i - 1) = 2 powi i / 2"
  by (simp add: power_int_diff)

lemma powi_succ: "(2::real) powi (i + 1) = 2 powi i * 2"
  by (simp add: power_int_add)

lemma powi_neg_le_1: "(2::real) powi (- int k) \<le> 1"
  by (simp add: power_int_minus field_simps)

lemma binade_lt2: "x < 2 \<Longrightarrow> binade n x \<le> 0"
proof (induction n arbitrary: x)
  case 0
  then show ?case by simp
next
  case (Suc n)
  have "x < 1 \<Longrightarrow> binade n (2 * x) \<le> 0" by (rule Suc.IH) simp
  with Suc.prems show ?case by auto
qed

lemma binade_small: "x < 2 powi (- int k) \<Longrightarrow> k < n \<Longrightarrow> binade n x \<le> - int k - 1"
proof (induction n arbitrary: x k)
  case 0
  then show ?case by simp
next
  case (Suc n)
  from Suc.prems(1) powi_neg_le_1 [of k] have x1: "x < 1" by simp
  show ?case
  proof (cases k)
    case 0
    from x1 have "binade n (2 * x) \<le> 0" by (intro binade_lt2) simp
    with x1 0 show ?thesis by simp
  next
    case k: (Suc k')
    have "- int k = - int k' - 1" using k by simp
    with Suc.prems(1) have "x < 2 powi (- int k') / 2" by (simp only: powi_pred)
    then have "2 * x < 2 powi (- int k')" by simp
    moreover have "k' < n" using Suc.prems(2) k by simp
    ultimately have "binade n (2 * x) \<le> - int k' - 1" by (rule Suc.IH)
    with x1 k show ?thesis by simp
  qed
qed

lemma binade_correct:
  "2 powi (- int n) \<le> x \<Longrightarrow> x < 2 powi (int n + 1) \<Longrightarrow>
     2 powi (binade n x) \<le> x \<and> x < 2 powi (binade n x + 1)"
proof (induction n arbitrary: x)
  case 0
  then show ?case by simp
next
  case (Suc n)
  have lo: "2 powi (- int n) / 2 \<le> x"
  proof -
    have "- int (Suc n) = - int n - 1" by simp
    with Suc.prems(1) show ?thesis by (simp only: powi_pred)
  qed
  have hi: "x < 2 powi (int n + 1) * 2"
  proof -
    have "int (Suc n) + 1 = int n + 1 + 1" by simp
    with Suc.prems(2) show ?thesis by (simp only: powi_succ)
  qed
  consider "2 \<le> x" | "x < 1" | "1 \<le> x" "x < 2" by linarith
  then show ?case
  proof cases
    case 1
    with powi_neg_le_1 [of n] have a: "2 powi (- int n) \<le> x / 2" by simp
    from hi have b: "x / 2 < 2 powi (int n + 1)" by simp
    from Suc.IH [OF a b] have "2 powi (binade n (x / 2)) * 2 \<le> x"
      "x < 2 powi (binade n (x / 2) + 1) * 2" by simp_all
    then have "2 powi (binade n (x / 2) + 1) \<le> x"
      "x < 2 powi (binade n (x / 2) + 1 + 1)" by (simp_all only: powi_succ)
    with 1 show ?thesis by simp
  next
    case 2
    from lo have a: "2 powi (- int n) \<le> 2 * x" by simp
    have "(1::real) \<le> 2 powi (int n)" by (simp add: power_int_def)
    then have "(2::real) \<le> 2 powi (int n + 1)" by (simp add: powi_succ)
    with 2 have b: "2 * x < 2 powi (int n + 1)" by simp
    from Suc.IH [OF a b] have "2 powi (binade n (2 * x)) / 2 \<le> x"
      "x < 2 powi (binade n (2 * x) + 1) / 2" by simp_all
    then have "2 powi (binade n (2 * x) - 1) \<le> x"
      "x < 2 powi (binade n (2 * x) + 1 - 1)" by (simp_all only: powi_pred)
    with 2 show ?thesis by simp
  next
    case 3
    then show ?thesis by simp
  qed
qed

lemma powi_less_cancel: "(2::real) powi a < 2 powi b \<Longrightarrow> a < b"
proof (rule ccontr)
  assume a: "(2::real) powi a < 2 powi b" and "\<not> a < b"
  then have "(2::real) powi b \<le> 2 powi a" by (intro power_int_increasing) simp_all
  with a show False by simp
qed

lemma binade_unique:
  assumes "2 powi b \<le> x" "x < 2 powi (b + 1)" "- int n \<le> b" "b \<le> int n"
  shows "binade n x = b"
proof -
  have "(2::real) powi (- int n) \<le> 2 powi b"
    using assms(3) by (intro power_int_increasing) simp_all
  with assms(1) have a: "2 powi (- int n) \<le> x" by simp
  have "(2::real) powi (b + 1) \<le> 2 powi (int n + 1)"
    using assms(4) by (intro power_int_increasing) simp_all
  with assms(2) have c: "x < 2 powi (int n + 1)" by simp
  from binade_correct [OF a c] have d: "2 powi (binade n x) \<le> x" "x < 2 powi (binade n x + 1)"
    by simp_all
  from assms(1) d(2) have "(2::real) powi b < 2 powi (binade n x + 1)" by simp
  then have "b < binade n x + 1" by (rule powi_less_cancel)
  moreover from d(1) assms(2) have "(2::real) powi (binade n x) < 2 powi (b + 1)" by simp
  then have "binade n x < b + 1" by (rule powi_less_cancel)
  ultimately show ?thesis by simp
qed

lemma ulp_exponent_normal:
  assumes "2 powi b \<le> \<bar>x\<bar>" "\<bar>x\<bar> < 2 powi (b + 1)" "- 1022 \<le> b" "b \<le> 1100"
  shows "ulp_exponent x = b - 52"
proof -
  have "binade 1100 \<bar>x\<bar> = b"
    using assms by (intro binade_unique) simp_all
  with assms(3) show ?thesis by (simp add: ulp_exponent_def)
qed

lemma ulp_exponent_subnormal:
  assumes "\<bar>x\<bar> < 2 powi (- 1022)"
  shows "ulp_exponent x = - 1074"
proof -
  have "\<bar>x\<bar> < 2 powi (- int 1022)" using assms by simp
  then have "binade 1100 \<bar>x\<bar> \<le> - int 1022 - 1" by (rule binade_small) simp
  then show ?thesis by (simp add: ulp_exponent_def)
qed

text \<open>
  The rounding: \<open>fl\<close> fixes every multiple of the spacing around it, and so every multiple
  of a coarser power of two; it is off by at most half the spacing; and it takes no
  number from \<open>0\<close> upwards below \<open>0\<close>.
\<close>

lemma fl_0: "fl 0 = 0"
  by (simp add: fl_def round_even_def)

lemma fl_fixed: "x / 2 powi ulp_exponent x = of_int m \<Longrightarrow> fl x = x"
proof -
  assume x: "x / 2 powi ulp_exponent x = of_int m"
  then have "fl x = x / 2 powi ulp_exponent x * 2 powi ulp_exponent x"
    unfolding fl_def by (simp only: round_even_of_int)
  then show ?thesis by simp
qed

lemma powi_add_nat: "(2::real) powi (e + int n) = 2 powi e * 2 ^ n"
  by (subst power_int_add) simp_all

lemma fl_grid:
  assumes "x = of_int k * 2 powi g" and "ulp_exponent x \<le> g"
  shows "fl x = x"
proof -
  define e where "e = ulp_exponent x"
  define n where "n = nat (g - e)"
  have "g = e + int n"
    using assms(2) by (simp add: e_def n_def)
  then have "(2::real) powi g = 2 powi e * 2 ^ n"
    by (simp only: powi_add_nat)
  then have "x / 2 powi e = of_int (k * 2 ^ n)"
    using assms(1) by simp
  then show ?thesis unfolding e_def by (rule fl_fixed)
qed

lemma fl_error: "\<bar>fl x - x\<bar> \<le> 2 powi ulp_exponent x / 2"
proof -
  define p where "p = (2::real) powi ulp_exponent x"
  have p: "0 < p" by (simp add: p_def)
  have "fl x - x = (of_int (round_even (x / p)) - x / p) * p"
    using p by (simp add: fl_def p_def algebra_simps)
  then have "\<bar>fl x - x\<bar> = \<bar>of_int (round_even (x / p)) - x / p\<bar> * p"
    using p by (simp add: abs_mult)
  also have "\<dots> \<le> 1 / 2 * p"
    using p round_even_error [of "x / p"] by (intro mult_right_mono) simp_all
  finally show ?thesis by (simp add: p_def)
qed

lemma fl_nonneg: "0 \<le> x \<Longrightarrow> 0 \<le> fl x"
proof -
  assume "0 \<le> x"
  then have "of_int 0 \<le> x / 2 powi ulp_exponent x" by simp
  then have "0 \<le> round_even (x / 2 powi ulp_exponent x)" by (rule round_even_ge)
  then show ?thesis by (simp add: fl_def)
qed

lemma ulp_exponent_lt2: "\<bar>x\<bar> < 2 \<Longrightarrow> ulp_exponent x \<le> - 52"
  using binade_lt2 [of "\<bar>x\<bar>" 1100] by (simp add: ulp_exponent_def)

lemma ulp_exponent_lt1: "\<bar>x\<bar> < 1 \<Longrightarrow> ulp_exponent x \<le> - 53"
  using binade_small [of "\<bar>x\<bar>" 0 1100] by (simp add: ulp_exponent_def)

lemma ulp_exponent_ge: "- 1074 \<le> ulp_exponent x"
  by (simp add: ulp_exponent_def)

lemma fl_unit_grid:
  assumes "0 \<le> k" "k \<le> 2 ^ 52"
  shows "fl (of_int k / 2 ^ 52) = of_int k / 2 ^ 52"
proof (cases "k = 2 ^ 52")
  case True
  have "ulp_exponent 1 = 0 - 52"
    by (rule ulp_exponent_normal) simp_all
  then have "fl 1 = 1" by (intro fl_grid [where k = 1 and g = 0]) simp_all
  with True show ?thesis by simp
next
  case False
  with assms have "\<bar>of_int k / (2::real) ^ 52\<bar> < 1" by simp
  then have "ulp_exponent (of_int k / 2 ^ 52) \<le> - 52"
    using ulp_exponent_lt1 [of "of_int k / 2 ^ 52"] by simp
  moreover have "of_int k / (2::real) ^ 52 = of_int k * 2 powi (- 52)"
    by (simp add: power_int_minus field_simps)
  ultimately show ?thesis by (rule fl_grid [rotated])
qed

lemma fl_below_1:
  assumes "0 \<le> x" "x < 1"
  shows "0 \<le> fl x" "fl x \<le> 1" "\<bar>fl x - x\<bar> \<le> 1 / 2 ^ 54"
proof -
  define e where "e = ulp_exponent x"
  from assms have e: "e \<le> - 53" unfolding e_def by (intro ulp_exponent_lt1) simp
  show "0 \<le> fl x" using assms(1) by (rule fl_nonneg)
  have "(2::real) powi e \<le> 2 powi (- 53)"
    using e by (intro power_int_increasing) simp_all
  then have "2 powi e / 2 \<le> (1::real) / 2 ^ 54" by (simp add: power_int_minus)
  with fl_error [of x] show "\<bar>fl x - x\<bar> \<le> 1 / 2 ^ 54" unfolding e_def by linarith
  have "1 / 2 powi e = (2::real) powi (int (nat (- e)))"
    using e by (simp add: power_int_minus field_simps)
  also have "\<dots> = of_int (2 ^ nat (- e))" by (simp only: power_int_of_nat) simp
  finally have "x / 2 powi e \<le> of_int (2 ^ nat (- e))"
    using assms by (simp add: field_simps)
  then have "round_even (x / 2 powi e) \<le> 2 ^ nat (- e)" by (rule round_even_le)
  then have "of_int (round_even (x / 2 powi e)) * 2 powi e \<le> of_int (2 ^ nat (- e)) * (2::real) powi e"
    by (intro mult_right_mono) simp_all
  also have "\<dots> = 1"
    using e by (simp add: power_int_def field_simps)
  finally show "fl x \<le> 1" by (simp add: fl_def e_def)
qed

text \<open>
  A number of a binade is rounded to a number of that binade or to the power of two above
  it, which rounding fixes: rounding twice is rounding once.
\<close>

lemma ulp_exponent_pow2:
  assumes "- 1022 \<le> b" "b \<le> 1100"
  shows "ulp_exponent (2 powi b) = b - 52"
proof (rule ulp_exponent_normal)
  show "2 powi b \<le> \<bar>(2::real) powi b\<bar>" by simp
  have "(2::real) powi b < 2 powi b * 2" by simp
  then show "\<bar>(2::real) powi b\<bar> < 2 powi (b + 1)" by (simp add: powi_succ)
qed (use assms in simp_all)

lemma fl_binade:
  assumes "2 powi b \<le> x" "x < 2 powi (b + 1)" "- 1022 \<le> b" "b \<le> 1099"
  obtains m where "2 ^ 52 \<le> m" "m \<le> 2 ^ 53" "fl x = of_int m * 2 powi (b - 52)"
    "fl (fl x) = fl x"
proof -
  define m where "m = round_even (x / 2 powi (b - 52))"
  have "(0::real) < 2 powi b" by simp
  with assms(1) have x: "0 < x" by linarith
  then have ax: "\<bar>x\<bar> = x" by simp
  have e: "ulp_exponent x = b - 52"
    using assms by (intro ulp_exponent_normal) (simp_all add: ax)
  then have fl: "fl x = of_int m * 2 powi (b - 52)"
    by (simp add: fl_def m_def)
  have p: "(2::real) powi b = 2 powi (b - 52) * 2 ^ 52"
    using powi_add_nat [of "b - 52" 52] by simp
  have p': "(2::real) powi (b + 1) = 2 powi (b - 52) * 2 ^ 53"
    using powi_add_nat [of "b - 52" 53] by (simp add: add.commute)
  have "of_int (2 ^ 52) \<le> x / 2 powi (b - 52)"
    using assms(1) unfolding p by (simp add: field_simps)
  then have lo: "2 ^ 52 \<le> m" unfolding m_def by (rule round_even_ge)
  have "x / 2 powi (b - 52) \<le> of_int (2 ^ 53)"
    using assms(2) unfolding p' by (simp add: field_simps)
  then have hi: "m \<le> 2 ^ 53" unfolding m_def by (rule round_even_le)
  have idem: "fl (fl x) = fl x"
  proof (cases "m = 2 ^ 53")
    case True
    then have y: "fl x = 2 powi (b + 1)" unfolding fl p' by simp
    have "ulp_exponent (fl x) = b + 1 - 52"
      using assms(3,4) unfolding y by (intro ulp_exponent_pow2) simp_all
    moreover have "fl x = of_int 1 * 2 powi (b + 1)" using y by simp
    ultimately show ?thesis by (intro fl_grid [where g = "b + 1" and k = 1]) simp_all
  next
    case False
    with hi have "m < 2 ^ 53" by simp
    then have "real_of_int m < real_of_int (2 ^ 53)" by (simp only: of_int_less_iff)
    then have "real_of_int m < 2 ^ 53" by simp
    then have "fl x < 2 powi (b + 1)" unfolding fl p' by (simp add: field_simps)
    moreover have "real_of_int (2 ^ 52) \<le> real_of_int m" using lo by (simp only: of_int_le_iff)
    then have "2 powi b \<le> fl x" unfolding fl p by (simp add: field_simps)
    moreover have "0 \<le> fl x" using x by (intro fl_nonneg) simp
    ultimately have "ulp_exponent (fl x) = b - 52"
      using assms(3,4) by (intro ulp_exponent_normal) simp_all
    then show ?thesis using fl by (intro fl_grid [where g = "b - 52" and k = m]) simp_all
  qed
  from lo hi fl idem show ?thesis by (rule that)
qed

lemma fl_subnormal:
  assumes "0 \<le> x" "x < 2 powi (- 1022)"
  shows "fl (fl x) = fl x"
proof -
  define m where "m = round_even (x / 2 powi (- 1074))"
  have e: "ulp_exponent x = - 1074"
    using assms by (intro ulp_exponent_subnormal) simp
  then have fl: "fl x = of_int m * 2 powi (- 1074)"
    by (simp add: fl_def m_def)
  have p: "(2::real) powi (- 1022) = 2 powi (- 1074) * 2 ^ 52"
    using powi_add_nat [of "- 1074" 52] by simp
  have "x / 2 powi (- 1074) \<le> of_int (2 ^ 52)"
    using assms(2) unfolding p by (simp add: field_simps)
  then have hi: "m \<le> 2 ^ 52" unfolding m_def by (rule round_even_le)
  have nn: "0 \<le> fl x" using assms(1) by (rule fl_nonneg)
  have "ulp_exponent (fl x) = - 1074"
  proof (cases "m = 2 ^ 52")
    case True
    then have y: "fl x = 2 powi (- 1022)" unfolding fl p by simp
    have "ulp_exponent (fl x) = - 1022 - 52"
      unfolding y by (intro ulp_exponent_pow2) simp_all
    then show ?thesis by simp
  next
    case False
    with hi have "m < 2 ^ 52" by simp
    then have "real_of_int m < real_of_int (2 ^ 52)" by (simp only: of_int_less_iff)
    then have "real_of_int m < 2 ^ 52" by simp
    then have "fl x < 2 powi (- 1022)" unfolding fl p by (simp add: field_simps)
    with nn show ?thesis by (intro ulp_exponent_subnormal) simp
  qed
  with fl show ?thesis by (intro fl_grid [where g = "- 1074" and k = m]) simp_all
qed

lemma fl_idem:
  assumes "0 \<le> x" "x < 2 powi 1024"
  shows "fl (fl x) = fl x"
proof (cases "x < 2 powi (- 1022)")
  case True
  with assms(1) show ?thesis by (rule fl_subnormal)
next
  case False
  define b where "b = binade 1100 x"
  have "(2::real) powi (- int 1100) \<le> 2 powi (- 1022)"
    by (intro power_int_increasing) simp_all
  with False have lo: "2 powi (- int 1100) \<le> x" by simp
  have "(2::real) powi 1024 \<le> 2 powi (int 1100 + 1)"
    by (intro power_int_increasing) simp_all
  with assms(2) have hi: "x < 2 powi (int 1100 + 1)" by simp
  from binade_correct [OF lo hi] have b: "2 powi b \<le> x" "x < 2 powi (b + 1)"
    by (simp_all add: b_def)
  from False b(2) have "(2::real) powi (- 1022) < 2 powi (b + 1)" by simp
  then have "- 1022 < b + 1" by (rule powi_less_cancel)
  moreover from b(1) assms(2) have "(2::real) powi b < 2 powi 1024" by simp
  then have "b < 1024" by (rule powi_less_cancel)
  ultimately have "- 1022 \<le> b" "b \<le> 1099" by simp_all
  with b show ?thesis by (rule fl_binade)
qed

lemma fl_1_to_2:
  assumes "1 \<le> x" "x < 2"
  obtains m where "2 ^ 52 \<le> m" "m \<le> 2 ^ 53" "fl x = of_int m / 2 ^ 52"
    "\<bar>fl x - x\<bar> \<le> 1 / 2 ^ 53"
proof -
  have x: "\<bar>x\<bar> = x" using assms by simp
  have "ulp_exponent x = 0 - 52"
    using assms by (intro ulp_exponent_normal) (simp_all add: x)
  with fl_error [of x] have err: "\<bar>fl x - x\<bar> \<le> 1 / 2 ^ 53"
    by (simp add: power_int_minus)
  have "2 powi 0 \<le> x" "x < 2 powi (0 + 1)" "- 1022 \<le> (0::int)" "(0::int) \<le> 1099"
    using assms by simp_all
  then obtain m where "2 ^ 52 \<le> m" "m \<le> 2 ^ 53" "fl x = of_int m * 2 powi (0 - 52)"
    by (rule fl_binade)
  then show ?thesis using err by (intro that [of m]) (simp_all add: power_int_minus field_simps)
qed

subsection \<open>The clock in double precision\<close>

text \<open>
  The steps of \<^verbatim>\<open>render\<close> after the division. For a quotient in the first cycle the floor
  is \<open>0\<close> and the subtraction changes nothing, unless the quotient was rounded up to \<open>1\<close>.
  For a quotient in the second cycle it is a multiple of \<open>2 ^ -52\<close> between \<open>1\<close> and \<open>2\<close>;
  subtracting \<open>1\<close> and reflecting are exact.
\<close>

lemma fl_1: "fl 1 = 1"
  using fl_unit_grid [of "2 ^ 52"] by simp

lemma fl_2: "fl 2 = 2"
proof -
  have "ulp_exponent (2 powi 1) = 1 - 52" by (rule ulp_exponent_pow2) simp_all
  then show ?thesis by (intro fl_grid [where k = 1 and g = 1]) simp_all
qed

lemma ping_unit:
  assumes "0 \<le> x" "x \<le> 1"
  shows "(let t = fl x; cycle = \<lfloor>t\<rfloor>; t = fsub t (of_int cycle)
     in if js_rem cycle 2 = 1 then fsub 1 t else t) = fl x"
    and "0 \<le> fl x" and "fl x \<le> 1" and "\<bar>fl x - x\<bar> \<le> 1 / 2 ^ 54"
proof -
  have r: "0 \<le> fl x \<and> fl x \<le> 1 \<and> \<bar>fl x - x\<bar> \<le> 1 / 2 ^ 54"
  proof (cases "x = 1")
    case True
    then show ?thesis by (simp add: fl_1)
  next
    case False
    with assms have "0 \<le> x" "x < 1" by simp_all
    then show ?thesis by (intro conjI fl_below_1)
  qed
  then show "0 \<le> fl x" "fl x \<le> 1" "\<bar>fl x - x\<bar> \<le> 1 / 2 ^ 54" by simp_all
  show "(let t = fl x; cycle = \<lfloor>t\<rfloor>; t = fsub t (of_int cycle)
     in if js_rem cycle 2 = 1 then fsub 1 t else t) = fl x"
  proof (cases "fl x = 1")
    case True
    then show ?thesis by (simp add: Let_def fsub_def fl_0 fl_1 js_rem_def)
  next
    case False
    with r have "\<lfloor>fl x\<rfloor> = 0" by (simp add: floor_eq_iff)
    moreover have "x < 2 powi 1024"
      using assms(2) one_le_power_int [of "2::real" 1024] by simp
    with assms(1) have "fl (fl x) = fl x" by (rule fl_idem)
    ultimately show ?thesis by (simp add: Let_def fsub_def js_rem_def)
  qed
qed

lemma ping_second:
  assumes "1 \<le> x" "x \<le> 2"
  shows "(let t = fl x; cycle = \<lfloor>t\<rfloor>; t = fsub t (of_int cycle)
     in if js_rem cycle 2 = 1 then fsub 1 t else t) = 2 - fl x"
    and "1 \<le> fl x" and "fl x \<le> 2" and "\<bar>fl x - x\<bar> \<le> 1 / 2 ^ 53"
proof -
  have "\<exists>m. 2 ^ 52 \<le> m \<and> m \<le> 2 ^ 53 \<and> fl x = of_int m / 2 ^ 52 \<and> \<bar>fl x - x\<bar> \<le> 1 / 2 ^ 53"
  proof (cases "x = 2")
    case True
    then show ?thesis by (intro exI [of _ "2 ^ 53"]) (simp add: fl_2)
  next
    case False
    with assms have "1 \<le> x" "x < 2" by simp_all
    then show ?thesis by (rule fl_1_to_2) blast
  qed
  then obtain m where m: "2 ^ 52 \<le> m" "m \<le> 2 ^ 53" "fl x = of_int m / 2 ^ 52"
    "\<bar>fl x - x\<bar> \<le> 1 / 2 ^ 53" by blast
  from m(1) have "real_of_int (2 ^ 52) \<le> real_of_int m" by (simp only: of_int_le_iff)
  then show lo: "1 \<le> fl x" unfolding m(3) by simp
  from m(2) have "real_of_int m \<le> real_of_int (2 ^ 53)" by (simp only: of_int_le_iff)
  then show hi: "fl x \<le> 2" unfolding m(3) by simp
  show "\<bar>fl x - x\<bar> \<le> 1 / 2 ^ 53" by (rule m(4))
  show "(let t = fl x; cycle = \<lfloor>t\<rfloor>; t = fsub t (of_int cycle)
     in if js_rem cycle 2 = 1 then fsub 1 t else t) = 2 - fl x"
  proof (cases "fl x = 2")
    case True
    then show ?thesis by (simp add: Let_def fsub_def fl_0 js_rem_def)
  next
    case False
    with lo hi have c: "\<lfloor>fl x\<rfloor> = 1" by (simp add: floor_eq_iff)
    define y where "y = real_of_int (m - 2 ^ 52) / 2 ^ 52"
    define z where "z = real_of_int (2 ^ 53 - m) / 2 ^ 52"
    have y: "fl x - 1 = y" unfolding m(3) y_def by simp
    have "fl y = y"
      unfolding y_def using m(1,2) by (intro fl_unit_grid) simp_all
    then have a: "fl (fl x - 1) = fl x - 1" by (simp only: y)
    have z: "1 - (fl x - 1) = z" "2 - fl x = z" unfolding m(3) z_def by simp_all
    have "fl z = z"
      unfolding z_def using m(1,2) by (intro fl_unit_grid) simp_all
    then have b: "fl (2 - fl x) = 2 - fl x" by (simp only: z)
    show ?thesis by (simp add: Let_def c fsub_def js_rem_def a b)
  qed
qed

lemma render_t_first:
  assumes "0 \<le> e" "e \<le> DURATION"
  shows "render_t e = fl (e / DURATION)"
  using assms ping_unit(1) [of "e / DURATION"]
  by (simp add: render_t_def LOOP_def fdiv_def DURATION_def)

lemma render_t_second:
  assumes "DURATION \<le> e" "e \<le> 2 * DURATION"
  shows "render_t e = 2 - fl (e / DURATION)"
  using assms ping_second(1) [of "e / DURATION"]
  by (simp add: render_t_def LOOP_def fdiv_def DURATION_def)

subsection \<open>The poses in double precision\<close>

text \<open>Rules that evaluate \<open>fl\<close> at a given rational number.\<close>

lemma binade_eval:
  "binade (numeral k) x =
     (if 2 \<le> x then binade (pred_numeral k) (x / 2) + 1
      else if x < 1 then binade (pred_numeral k) (2 * x) - 1
      else 0)"
  by (simp add: numeral_eq_Suc)

lemma fl_nz: "x \<noteq> 0 \<Longrightarrow>
    fl x = of_int (round_even (x / 2 powi ulp_exponent x)) * 2 powi ulp_exponent x"
  by (simp add: fl_def)

lemmas fl_eval = fl_nz fl_0 ulp_exponent_def round_even_def binade_eval Let_def

text \<open>The angles of the four poses in radians, and the two literals.\<close>

lemma deg64_values:
  "deg64 0 = 0"
  "deg64 30 = 4716158501352293 / 2 ^ 53"
  "deg64 (- 15) = - (4716158501352293 / 2 ^ 54)"
  "deg64 100 = 7860264168920489 / 2 ^ 52"
  "deg64 (- 80) = - (6288211335136391 / 2 ^ 52)"
  "deg64 15 = 4716158501352293 / 2 ^ 54"
  "deg64 (- 125) = - (4912665105575305 / 2 ^ 51)"
  "deg64 (- 60) = - (4716158501352293 / 2 ^ 52)"
  "deg64 (- 30) = - (4716158501352293 / 2 ^ 53)"
  "deg64 (- 70) = - (2751092459122171 / 2 ^ 51)"
  "deg64 (- 20) = - (6288211335136391 / 2 ^ 54)"
  "deg64 (- 310) = - (6091704730913379 / 2 ^ 50)"
  "deg64 70 = 2751092459122171 / 2 ^ 51"
  "deg64 60 = 4716158501352293 / 2 ^ 52"
  "deg64 (- 10) = - (6288211335136391 / 2 ^ 55)"
  "deg64 (- 160) = - (6288211335136391 / 2 ^ 51)"
  "deg64 20 = 6288211335136391 / 2 ^ 54"
  "deg64 140 = 2751092459122171 / 2 ^ 50"
  "deg64 180 = 884279719003555 / 2 ^ 48"
  "deg64 (- 40) = - (6288211335136391 / 2 ^ 53)"
  "deg64 50 = 7860264168920489 / 2 ^ 53"
  "deg64 (- 55) = - (4323145292906269 / 2 ^ 52)"
  by (simp_all add: deg64_def fmul_def fdiv_def Math_PI_def fl_eval)

lemma literal_values:
  "fl 0.3 = 5404319552844595 / 2 ^ 54" "fl 0.2 = 3602879701896397 / 2 ^ 54"
  by (simp_all add: fl_eval)

lemma startPose_spike64_value: "startPose_spike64 =
     \<lparr> BODY_LEAN_X = 0,
       BODY_LEAN_Y = 0,
       BODY_LEAN_Z = 4716158501352293 / 2 ^ 53,
       HEAD_TILT = - (4716158501352293 / 2 ^ 54),
       LEFT_SHOULDER = 7860264168920489 / 2 ^ 52,
       RIGHT_SHOULDER = - (6288211335136391 / 2 ^ 52),
       LEFT_ELBOW = 4716158501352293 / 2 ^ 54,
       RIGHT_ELBOW = - (4912665105575305 / 2 ^ 51),
       LEFT_HIP = - (4716158501352293 / 2 ^ 52),
       RIGHT_HIP = - (4716158501352293 / 2 ^ 53),
       LEFT_KNEE = - (2751092459122171 / 2 ^ 51),
       RIGHT_KNEE = - (4716158501352293 / 2 ^ 53) \<rparr>"
  by (simp add: startPose_spike64_def deg64_values)

lemma endPose_spike64_value: "endPose_spike64 =
     \<lparr> BODY_LEAN_X = 0,
       BODY_LEAN_Y = 0,
       BODY_LEAN_Z = - (6288211335136391 / 2 ^ 54),
       HEAD_TILT = - (4716158501352293 / 2 ^ 54),
       LEFT_SHOULDER = 0,
       RIGHT_SHOULDER = - (6091704730913379 / 2 ^ 50),
       LEFT_ELBOW = 2751092459122171 / 2 ^ 51,
       RIGHT_ELBOW = 0,
       LEFT_HIP = 4716158501352293 / 2 ^ 52,
       RIGHT_HIP = 4716158501352293 / 2 ^ 52,
       LEFT_KNEE = - (6288211335136391 / 2 ^ 55),
       RIGHT_KNEE = - (2751092459122171 / 2 ^ 51) \<rparr>"
  by (simp add: endPose_spike64_def deg64_values)

lemma startPose_lift64_value: "startPose_lift64 =
     \<lparr> BODY_LEAN_X = 0,
       BODY_LEAN_Y = 0,
       BODY_LEAN_Z = 0,
       HEAD_TILT = - (4716158501352293 / 2 ^ 54),
       LEFT_SHOULDER = 6288211335136391 / 2 ^ 54,
       RIGHT_SHOULDER = 6288211335136391 / 2 ^ 54,
       LEFT_ELBOW = 2751092459122171 / 2 ^ 50,
       RIGHT_ELBOW = 2751092459122171 / 2 ^ 50,
       LEFT_HIP = 0,
       RIGHT_HIP = 0,
       LEFT_KNEE = 0,
       RIGHT_KNEE = 0 \<rparr>"
  by (simp add: startPose_lift64_def deg64_values)

lemma endPose_lift64_value: "endPose_lift64 =
     \<lparr> BODY_LEAN_X = 0,
       BODY_LEAN_Y = 0,
       BODY_LEAN_Z = 0,
       HEAD_TILT = - (4716158501352293 / 2 ^ 54),
       LEFT_SHOULDER = 884279719003555 / 2 ^ 48,
       RIGHT_SHOULDER = 884279719003555 / 2 ^ 48,
       LEFT_ELBOW = 0,
       RIGHT_ELBOW = 0,
       LEFT_HIP = - (6288211335136391 / 2 ^ 53),
       RIGHT_HIP = 7860264168920489 / 2 ^ 53,
       LEFT_KNEE = - (6288211335136391 / 2 ^ 55),
       RIGHT_KNEE = - (4323145292906269 / 2 ^ 52) \<rparr>"
  by (simp add: endPose_lift64_def deg64_values)

text \<open>The twelve interpolated keys at \<open>0\<close> and at \<open>1\<close>, and \<^verbatim>\<open>interpolatePose\<close> there.\<close>

lemma spike64_keys_0: "lerp_keys64 startPose_spike64 endPose_spike64 0 = startPose_spike64"
  unfolding lerp_keys64_def lerp64_def fadd_def fsub_def fmul_def
    startPose_spike64_value endPose_spike64_value
  by (simp add: fl_eval)

lemma spike64_keys_1: "lerp_keys64 startPose_spike64 endPose_spike64 1 =
     \<lparr> BODY_LEAN_X = 0,
       BODY_LEAN_Y = 0,
       BODY_LEAN_Z = - (3144105667568195 / 2 ^ 53),
       HEAD_TILT = - (4716158501352293 / 2 ^ 54),
       LEFT_SHOULDER = 0,
       RIGHT_SHOULDER = - (6091704730913379 / 2 ^ 50),
       LEFT_ELBOW = 2751092459122171 / 2 ^ 51,
       RIGHT_ELBOW = 0,
       LEFT_HIP = 4716158501352293 / 2 ^ 52,
       RIGHT_HIP = 2358079250676147 / 2 ^ 51,
       LEFT_KNEE = - (786026416892049 / 2 ^ 52),
       RIGHT_KNEE = - (2751092459122171 / 2 ^ 51) \<rparr>"
  unfolding lerp_keys64_def lerp64_def fadd_def fsub_def fmul_def
    startPose_spike64_value endPose_spike64_value
  by (simp add: fl_eval)

lemma lift64_keys_0: "lerp_keys64 startPose_lift64 endPose_lift64 0 = startPose_lift64"
  unfolding lerp_keys64_def lerp64_def fadd_def fsub_def fmul_def
    startPose_lift64_value endPose_lift64_value
  by (simp add: fl_eval)

lemma lift64_keys_1: "lerp_keys64 startPose_lift64 endPose_lift64 1 = endPose_lift64"
  unfolding lerp_keys64_def lerp64_def fadd_def fsub_def fmul_def
    startPose_lift64_value endPose_lift64_value
  by (simp add: fl_eval)

lemma spike64_at_0:
  "interpolatePose_spike64 0 = pose.extend startPose_spike64 (pose_sx.fields SX_START64)"
proof -
  have sh: "RIGHT_SHOULDER startPose_spike64 > SHOULDER_LIMIT64"
    by (simp add: startPose_spike64_def SHOULDER_LIMIT64_def deg64_values)
  have k: "fdiv (fsub (RIGHT_SHOULDER startPose_spike64) (RIGHT_SHOULDER startPose_spike64))
      (fsub SHOULDER_LIMIT64 (RIGHT_SHOULDER startPose_spike64)) = 0"
    by (simp add: fdiv_def fsub_def fl_0)
  have e: "lerp64 (RIGHT_ELBOW startPose_spike64) 0 0 = RIGHT_ELBOW startPose_spike64"
    unfolding lerp64_def fadd_def fsub_def fmul_def startPose_spike64_value
    by (simp add: fl_eval)
  have x: "lerp64 SX_START64 SX_END64 0 = SX_START64"
    unfolding lerp64_def fadd_def fsub_def fmul_def SX_START64_def SX_END64_def literal_values
    by (simp add: fl_eval)
  show ?thesis
    unfolding interpolatePose_spike64_def Let_def spike64_keys_0 k e x
    using sh by simp
qed

lemma spike64_at_1:
  "interpolatePose_spike64 1 =
     pose.extend
       \<lparr> BODY_LEAN_X = 0,
       BODY_LEAN_Y = 0,
       BODY_LEAN_Z = - (3144105667568195 / 2 ^ 53),
       HEAD_TILT = - (4716158501352293 / 2 ^ 54),
       LEFT_SHOULDER = 0,
       RIGHT_SHOULDER = - (6091704730913379 / 2 ^ 50),
       LEFT_ELBOW = 2751092459122171 / 2 ^ 51,
       RIGHT_ELBOW = 0,
       LEFT_HIP = 4716158501352293 / 2 ^ 52,
       RIGHT_HIP = 2358079250676147 / 2 ^ 51,
       LEFT_KNEE = - (786026416892049 / 2 ^ 52),
       RIGHT_KNEE = - (2751092459122171 / 2 ^ 51) \<rparr>
       (pose_sx.fields SX_END64)"
  unfolding interpolatePose_spike64_def Let_def spike64_keys_1
  by (simp add: SHOULDER_LIMIT64_def deg64_values)

lemma lift64_at_0:
  "interpolatePose_lift64 0 =
     pose_sx.extend (pose.extend startPose_lift64 (pose_sx.fields ARM_SX_START64))
       (pose_lift.fields LEG_SX_START64)"
proof -
  have e: "lerp64 (RIGHT_ELBOW startPose_lift64) (RIGHT_ELBOW endPose_lift64) 0 =
      RIGHT_ELBOW startPose_lift64"
    "lerp64 (LEFT_ELBOW startPose_lift64) (LEFT_ELBOW endPose_lift64) 0 =
      LEFT_ELBOW startPose_lift64"
    unfolding lerp64_def fadd_def fsub_def fmul_def startPose_lift64_value endPose_lift64_value
    by (simp_all add: fl_eval)
  have x: "lerp64 ARM_SX_START64 ARM_SX_END64 0 = ARM_SX_START64"
    "lerp64 LEG_SX_START64 LEG_SX_END64 0 = LEG_SX_START64"
    unfolding lerp64_def fadd_def fsub_def fmul_def ARM_SX_START64_def ARM_SX_END64_def
      LEG_SX_START64_def LEG_SX_END64_def literal_values
    by (simp_all add: fl_eval)
  show ?thesis
    unfolding interpolatePose_lift64_def Let_def lift64_keys_0 e x by simp
qed

lemma lift64_at_1:
  "interpolatePose_lift64 1 =
     pose_sx.extend (pose.extend endPose_lift64 (pose_sx.fields ARM_SX_END64))
       (pose_lift.fields LEG_SX_END64)"
proof -
  have e: "lerp64 (RIGHT_ELBOW startPose_lift64) (RIGHT_ELBOW endPose_lift64) 1 =
      RIGHT_ELBOW endPose_lift64"
    "lerp64 (LEFT_ELBOW startPose_lift64) (LEFT_ELBOW endPose_lift64) 1 =
      LEFT_ELBOW endPose_lift64"
    unfolding lerp64_def fadd_def fsub_def fmul_def startPose_lift64_value endPose_lift64_value
    by (simp_all add: fl_eval)
  have x: "lerp64 ARM_SX_START64 ARM_SX_END64 1 = ARM_SX_END64"
    "lerp64 LEG_SX_START64 LEG_SX_END64 1 = LEG_SX_END64"
    unfolding lerp64_def fadd_def fsub_def fmul_def ARM_SX_START64_def ARM_SX_END64_def
      LEG_SX_START64_def LEG_SX_END64_def literal_values
    by (simp_all add: fl_eval)
  show ?thesis
    unfolding interpolatePose_lift64_def Let_def lift64_keys_1 e x by simp
qed

subsection \<open>Counting what the geometry builders append\<close>

lemma fold_grows:
  assumes "\<And>x acc. m (f x acc) = m acc + k"
  shows "m (fold f xs acc) = m acc + k * length xs"
  using assms by (induction xs arbitrary: acc) (simp_all add: algebra_simps)

lemma sphere_vertices:
  "length (vertices (createSphere r lat lon)) = 3 * ((lat + 1) * (lon + 1))"
  unfolding createSphere_def Let_def case_prod_unfold geometry.simps
  by (subst fold_grows [where m = "\<lambda>p. length (fst p)" and k = "3 * Suc lon"],
      subst fold_grows [where m = "\<lambda>p. length (fst p)" and k = 3]) (simp_all add: algebra_simps)

lemma sphere_normals:
  "length (normals (createSphere r lat lon)) = 3 * ((lat + 1) * (lon + 1))"
  unfolding createSphere_def Let_def case_prod_unfold geometry.simps
  by (subst fold_grows [where m = "\<lambda>p. length (snd p)" and k = "3 * Suc lon"],
      subst fold_grows [where m = "\<lambda>p. length (snd p)" and k = 3]) (simp_all add: algebra_simps)

lemma sphere_indices:
  "length (indices (createSphere r lat lon)) = lat * lon * 6"
  unfolding createSphere_def Let_def case_prod_unfold geometry.simps length_map
  by (subst fold_grows [where m = length and k = "6 * lon"],
      subst fold_grows [where m = length and k = 6]) (simp_all add: algebra_simps)

lemma fold_grows_by:
  assumes "\<And>x acc. m (f x acc) = m acc + g x"
  shows "m (fold f xs acc) = m acc + sum_list (map g xs)"
  using assms by (induction xs arbitrary: acc) (simp_all add: algebra_simps)

lemma rim_triangles: "sum_list (map (\<lambda>i. if 0 < i then 3 else 0) [0..<Suc n]) = 3 * n"
  by (induction n) simp_all

lemma topCap_vertices:
  "length (fst (topCap r y rs th acc)) = length (fst acc) + 3 * (rs + 2)"
  unfolding topCap_def Let_def case_prod_unfold
  by (subst fold_grows [where m = "\<lambda>p. length (fst p)" and k = 3]) simp_all

lemma topCap_normals:
  "length (fst (snd (topCap r y rs th acc))) = length (fst (snd acc)) + 3 * (rs + 2)"
  unfolding topCap_def Let_def case_prod_unfold
  by (subst fold_grows [where m = "\<lambda>p. length (fst (snd p))" and k = 3]) simp_all

lemma topCap_indices:
  "length (snd (snd (topCap r y rs th acc))) = length (snd (snd acc)) + 3 * rs"
  unfolding topCap_def Let_def case_prod_unfold
  by (subst fold_grows_by [where m = "\<lambda>p. length (snd (snd p))"
        and g = "\<lambda>i. if 0 < i then 3 else 0"])
     (simp_all add: rim_triangles del: upt_Suc)

lemma bottomCap_vertices:
  "length (fst (bottomCap r y rs th acc)) = length (fst acc) + 3 * (rs + 2)"
  unfolding bottomCap_def Let_def case_prod_unfold
  by (subst fold_grows [where m = "\<lambda>p. length (fst p)" and k = 3]) simp_all

lemma bottomCap_normals:
  "length (fst (snd (bottomCap r y rs th acc))) = length (fst (snd acc)) + 3 * (rs + 2)"
  unfolding bottomCap_def Let_def case_prod_unfold
  by (subst fold_grows [where m = "\<lambda>p. length (fst (snd p))" and k = 3]) simp_all

lemma bottomCap_indices:
  "length (snd (snd (bottomCap r y rs th acc))) = length (snd (snd acc)) + 3 * rs"
  unfolding bottomCap_def Let_def case_prod_unfold
  by (subst fold_grows_by [where m = "\<lambda>p. length (snd (snd p))"
        and g = "\<lambda>i. if 0 < i then 3 else 0"])
     (simp_all add: rim_triangles del: upt_Suc)

lemma cylinder_caps:
  "length (vertices (createCylinder rt rb h rs hs False)) =
     length (vertices (createCylinder rt rb h rs hs True)) + 3 * (2 * (rs + 2)) \<and>
   length (normals (createCylinder rt rb h rs hs False)) =
     length (normals (createCylinder rt rb h rs hs True)) + 3 * (2 * (rs + 2)) \<and>
   length (indices (createCylinder rt rb h rs hs False)) =
     length (indices (createCylinder rt rb h rs hs True)) + 2 * rs * 3"
  unfolding createCylinder_def Let_def
  by (simp add: case_prod_unfold topCap_vertices topCap_normals topCap_indices
        bottomCap_vertices bottomCap_normals bottomCap_indices del: upt_Suc fold_simps)

subsection \<open>Vectors and the barbell\<close>

lemma sumsq_zero_iff: "(x::real) * x + y * y + z * z = 0 \<longleftrightarrow> x = 0 \<and> y = 0 \<and> z = 0"
proof
  assume a: "x * x + y * y + z * z = 0"
  have "0 \<le> x * x" "0 \<le> y * y" "0 \<le> z * z" by simp_all
  with a have "x * x = 0" "y * y = 0" "z * z = 0" by linarith+
  then show "x = 0 \<and> y = 0 \<and> z = 0" by simp
qed simp

lemma vec3_length_zero_iff: "vec3_length v = 0 \<longleftrightarrow> v = (0, 0, 0)"
  by (cases v) (simp add: sumsq_zero_iff)

lemma vec3_length_nonneg: "0 \<le> vec3_length v"
  by (cases v) simp

lemma vec3_length_scale: "0 \<le> b \<Longrightarrow> vec3_length (vec3_scale v b) = vec3_length v * b"
proof (cases v)
  case (fields x y z)
  assume b: "0 \<le> b"
  have "x * b * (x * b) + y * b * (y * b) + z * b * (z * b) = (x * x + y * y + z * z) * (b * b)"
    by (simp add: algebra_simps)
  then show ?thesis using b fields by (simp add: real_sqrt_mult)
qed

lemma vec3_normalise: "vec3_length v \<noteq> 0 \<Longrightarrow> vec3_length (vec3_scale v (1 / vec3_length v)) = 1"
  using vec3_length_nonneg [of v] by (simp add: vec3_length_scale)

lemma vec3_subtract_zero_iff: "vec3_subtract a b = (0, 0, 0) \<longleftrightarrow> a = b"
  by (cases a, cases b) auto

lemma orient_calls:
  "drawBarbell_orient L R =
     map call (case drawBarbell_rotation L R of None \<Rightarrow> [] | Some (a, v) \<Rightarrow> [Rotate a v])"
  by (simp add: drawBarbell_orient_def split: option.split)

lemma scope_draws_run:
  obtains s' where
    "run (([ok push] @ map call cs @ [ok (drawVAO g), pop]) @ rest) s = run rest s'"
    and "drawn s' = drawn s @ [(g, fold apply_call cs (getCurrentMatrix s))]"
    and "getCurrentMatrix s' = getCurrentMatrix s" and "stack s' = stack s"
    and "warnings s' = warnings s"
proof -
  from scope_draws [of cs g s] obtain s' where s':
    "run ([ok push] @ map call cs @ [ok (drawVAO g), pop]) s = Inr s'"
    "drawn s' = drawn s @ [(g, fold apply_call cs (getCurrentMatrix s))]"
    "getCurrentMatrix s' = getCurrentMatrix s" "stack s' = stack s"
    by blast
  have "pushed 0 s s"
    by (rule pushed_refl)
  moreover have "moves (run ([ok push] @ map call cs @ [ok (drawVAO g), pop])) 0 0"
    by (rule moves_prims moves_calls)+
  ultimately have "pushed 0 s s'"
    using s'(1) by (auto dest: movesD)
  then have "warnings s' = warnings s"
    by (rule pushed_0D)
  moreover have "run (([ok push] @ map call cs @ [ok (drawVAO g), pop]) @ rest) s = run rest s'"
    unfolding run_append [of "[ok push] @ map call cs @ [ok (drawVAO g), pop]"] s'(1) by simp
  ultimately show ?thesis
    using s'(2,3,4) that by blast
qed

lemma drawBarbell_draws:
  fixes L R s
  defines "c \<equiv> getCurrentMatrix s"
    and "rot \<equiv> (case drawBarbell_rotation L R of None \<Rightarrow> [] | Some (a, v) \<Rightarrow> [Rotate a v])"
    and "mid \<equiv> drawBarbell_mid L R"
    and "len \<equiv> drawBarbell_len L R"
  shows "\<exists>s'. drawBarbell L R s = Inr s' \<and>
     drawn s' = drawn s @
       [(BarVAO, fold apply_call ([Translate mid] @ rot @ [Scale (1, len, 1)]) c),
        (PlateVAO, fold apply_call ([Translate mid] @ rot @ [Translate (0, 1 * (len - 0.05), 0)]) c),
        (PlateVAO, fold apply_call ([Translate mid] @ rot @ [Translate (0, - 1 * (len - 0.05), 0)]) c)]"
proof -
  let ?bar = "[ok push] @ map call ([Translate mid] @ rot @ [Scale (1, len, 1)]) @
    [ok (drawVAO BarVAO), pop]"
  let ?plate = "\<lambda>sign. [ok push] @
    map call ([Translate mid] @ rot @ [Translate (0, sign * (len - 0.05), 0)]) @
    [ok (drawVAO PlateVAO), pop]"
  let ?check = "[ok (leak_check (length (stack s)))]"
  have "drawBarbell L R s = run (?bar @ ?plate 1 @ ?plate (- 1) @ ?check) s"
    unfolding drawBarbell_def Let_def orient_calls
    by (simp add: rot_def mid_def len_def del: run.simps)
  also obtain s1 where s1: "run (?bar @ ?plate 1 @ ?plate (- 1) @ ?check) s =
      run (?plate 1 @ ?plate (- 1) @ ?check) s1"
    "drawn s1 = drawn s @ [(BarVAO, fold apply_call ([Translate mid] @ rot @ [Scale (1, len, 1)]) c)]"
    "getCurrentMatrix s1 = c" "stack s1 = stack s"
    unfolding c_def by (rule scope_draws_run)
  note s1(1)
  also obtain s2 where s2: "run (?plate 1 @ ?plate (- 1) @ ?check) s1 =
      run (?plate (- 1) @ ?check) s2"
    "drawn s2 = drawn s1 @
      [(PlateVAO, fold apply_call ([Translate mid] @ rot @ [Translate (0, 1 * (len - 0.05), 0)]) c)]"
    "getCurrentMatrix s2 = c" "stack s2 = stack s"
    unfolding s1(3,4) [symmetric] by (rule scope_draws_run)
  note s2(1)
  also obtain s3 where s3: "run (?plate (- 1) @ ?check) s2 = run ?check s3"
    "drawn s3 = drawn s2 @
      [(PlateVAO, fold apply_call ([Translate mid] @ rot @ [Translate (0, - 1 * (len - 0.05), 0)]) c)]"
    "stack s3 = stack s"
    unfolding s2(3,4) [symmetric] by (rule scope_draws_run)
  note s3(1)
  also have "run ?check s3 = Inr s3"
    using s3(3) by (simp add: ok_def leak_check_def)
  finally have "drawBarbell L R s = Inr s3" .
  then show ?thesis
    using s1(2) s2(2) s3(2) by simp
qed

lemma rotate_quarter_about_minus_z:
  "mat4_rotate mat4_create (pi / 2) (0, 0, - 1) =
     \<lparr> m0 = 0, m1 = - 1, m2 = 0, m3 = 0,
       m4 = 1, m5 = 0, m6 = 0, m7 = 0,
       m8 = 0, m9 = 0, m10 = 1, m11 = 0,
       m12 = 0, m13 = 0, m14 = 0, m15 = 1 \<rparr>"
  by (simp add: mat4_create_def EPSILON_def)

lemma rotation_of_cases:
  fixes d :: vec3
  defines "c \<equiv> min (max (vec3_dot up d) (- 1)) 1"
    and "axis \<equiv> vec3_cross up d"
  shows "- 1 \<le> c" "c \<le> 1" "cos (arccos c) = c" "0 \<le> arccos c" "arccos c \<le> pi"
    and "vec3_length axis > 1 / 100000 \<Longrightarrow>
      drawBarbell_rotation_of d = Some (arccos c, vec3_scale axis (1 / vec3_length axis))"
    and "vec3_length axis > 1 / 100000 \<Longrightarrow>
      vec3_length (vec3_scale axis (1 / vec3_length axis)) = 1"
    and "\<not> vec3_length axis > 1 / 100000 \<Longrightarrow> vec3_dot up d < 0 \<Longrightarrow>
      drawBarbell_rotation_of d = Some (pi, (1, 0, 0))"
    and "\<not> vec3_length axis > 1 / 100000 \<Longrightarrow> \<not> vec3_dot up d < 0 \<Longrightarrow>
      drawBarbell_rotation_of d = None"
proof -
  show c: "- 1 \<le> c" "c \<le> 1" by (simp_all add: c_def)
  then show "cos (arccos c) = c" "0 \<le> arccos c" "arccos c \<le> pi"
    by (simp_all add: arccos_lbound arccos_ubound)
  show "drawBarbell_rotation_of d = Some (arccos c, vec3_scale axis (1 / vec3_length axis))"
    if "vec3_length axis > 1 / 100000"
    using that by (simp add: drawBarbell_rotation_of_def Let_def c_def axis_def)
  show "vec3_length (vec3_scale axis (1 / vec3_length axis)) = 1"
    if "vec3_length axis > 1 / 100000"
  proof -
    from that have "vec3_length axis \<noteq> 0" by simp
    then show ?thesis by (rule vec3_normalise)
  qed
  show "drawBarbell_rotation_of d = Some (pi, (1, 0, 0))"
    if "\<not> vec3_length axis > 1 / 100000" "vec3_dot up d < 0"
    using that by (simp add: drawBarbell_rotation_of_def Let_def axis_def)
  show "drawBarbell_rotation_of d = None"
    if "\<not> vec3_length axis > 1 / 100000" "\<not> vec3_dot up d < 0"
    using that by (simp add: drawBarbell_rotation_of_def Let_def axis_def)
qed

lemma rotation_of_applied:
  assumes "drawBarbell_rotation_of d = Some (ang, n)"
  shows "0 \<le> ang \<and> ang \<le> pi \<and> vec3_length n = 1 \<and> \<not> vec3_length n < EPSILON"
proof -
  consider "vec3_length (vec3_cross up d) > 1 / 100000"
    | "\<not> vec3_length (vec3_cross up d) > 1 / 100000" "vec3_dot up d < 0"
    | "\<not> vec3_length (vec3_cross up d) > 1 / 100000" "\<not> vec3_dot up d < 0"
    by blast
  then show ?thesis
  proof cases
    case 1
    from rotation_of_cases(6,7) [OF 1] assms rotation_of_cases(4,5) [of d]
    show ?thesis by (simp add: EPSILON_def)
  next
    case 2
    from rotation_of_cases(8) [OF 2] assms show ?thesis by (simp add: EPSILON_def)
  next
    case 3
    from rotation_of_cases(9) [OF 3] assms show ?thesis by simp
  qed
qed

lemma distinct_hands_dir:
  assumes "drawBarbell_pL L \<noteq> drawBarbell_pR R"
  obtains dir where "drawBarbell_dir L R = Some dir" "vec3_length dir = 1"
    "drawBarbell_rotation L R = drawBarbell_rotation_of dir"
proof -
  define d where "d = vec3_subtract (drawBarbell_pR R) (drawBarbell_pL L)"
  have len: "drawBarbell_len L R = vec3_length d"
    by (simp add: drawBarbell_len_def d_def)
  have "d \<noteq> (0, 0, 0)"
    using assms unfolding d_def vec3_subtract_zero_iff by simp
  then have nz: "vec3_length d \<noteq> 0"
    by (simp add: vec3_length_zero_iff)
  define dir where "dir = vec3_scale d (1 / vec3_length d)"
  have dir: "drawBarbell_dir L R = Some dir"
    using nz by (simp add: drawBarbell_dir_def len Let_def dir_def d_def)
  moreover have "vec3_length dir = 1"
    unfolding dir_def using nz by (rule vec3_normalise)
  moreover have "drawBarbell_rotation L R = drawBarbell_rotation_of dir"
    by (simp add: drawBarbell_rotation_def dir)
  ultimately show ?thesis by (rule that)
qed

lemma drawBarbell_oriented:
  "\<exists>s'. drawBarbell L R s = Inr s' \<and>
     (let M = mat4_translate (getCurrentMatrix s) (drawBarbell_mid L R);
          Q = (case drawBarbell_rotation L R of
                 None \<Rightarrow> M
               | Some (ang, n) \<Rightarrow> mat4_rotate M ang n);
          len = drawBarbell_len L R
      in drawn s' = drawn s @
           [(BarVAO, mat4_scale Q (1, len, 1)),
            (PlateVAO, mat4_translate Q (0, len - 0.05, 0)),
            (PlateVAO, mat4_translate Q (0, - (len - 0.05), 0))])"
  using drawBarbell_draws [of L R s]
  by (cases "drawBarbell_rotation L R")
     (auto simp add: Let_def simp del: mat4_translate.simps mat4_rotate.simps mat4_scale.simps)

subsection \<open>The claims\<close>

text \<open>
  C1. Every part-drawing routine is stack-balanced. Started in any state of the stack,
  and for every animation, pose and pair of hand matrices, \<^verbatim>\<open>drawCharacter\<close> (of the
  fencing and of the running scene), \<^verbatim>\<open>character\<close> (of the lifting and of the spike
  scene) and \<^verbatim>\<open>drawBarbell\<close> return normally; afterwards the history has the depth it had
  before the call, and the current transform has the value it had before the call. Where
  the current matrix was not itself an object of the history, the history also holds the
  same matrices as before. \<^verbatim>\<open>drawBarbell\<close> logs no leak warning.
\<close>

theorem drawing_routines_balanced:
  "(\<exists>s'. drawCharacter anim s = Inr s' \<and>
      length (stack s') = length (stack s) \<and>
      getCurrentMatrix s' = getCurrentMatrix s \<and>
      (current s \<notin> set (stack s) \<longrightarrow> map (heap s') (stack s') = map (heap s) (stack s))) \<and>
   (\<exists>s'. drawCharacter_run anim s = Inr s' \<and>
      length (stack s') = length (stack s) \<and>
      getCurrentMatrix s' = getCurrentMatrix s \<and>
      (current s \<notin> set (stack s) \<longrightarrow> map (heap s') (stack s') = map (heap s) (stack s))) \<and>
   (\<exists>hands s'. character p s = Inr (hands, s') \<and>
      length (stack s') = length (stack s) \<and>
      getCurrentMatrix s' = getCurrentMatrix s \<and>
      (current s \<notin> set (stack s) \<longrightarrow> map (heap s') (stack s') = map (heap s) (stack s))) \<and>
   (\<exists>s'. character_spike q s = Inr s' \<and>
      length (stack s') = length (stack s) \<and>
      getCurrentMatrix s' = getCurrentMatrix s \<and>
      (current s \<notin> set (stack s) \<longrightarrow> map (heap s') (stack s') = map (heap s) (stack s))) \<and>
   (\<exists>s'. drawBarbell L R s = Inr s' \<and>
      length (stack s') = length (stack s) \<and>
      getCurrentMatrix s' = getCurrentMatrix s \<and>
      (current s \<notin> set (stack s) \<longrightarrow> map (heap s') (stack s') = map (heap s) (stack s)) \<and>
      warnings s' = warnings s)"
proof (intro conjI)
  have "pushed 0 s s" by (rule pushed_refl)
  with moves_drawCharacter obtain s' where s': "drawCharacter anim s = Inr s'" "pushed 0 s s'"
    by (blast dest: movesD)
  then show "\<exists>s'. drawCharacter anim s = Inr s' \<and>
      length (stack s') = length (stack s) \<and>
      getCurrentMatrix s' = getCurrentMatrix s \<and>
      (current s \<notin> set (stack s) \<longrightarrow> map (heap s') (stack s') = map (heap s) (stack s))"
    by (auto dest: balanced_0D)
next
  have "pushed 0 s s" by (rule pushed_refl)
  with moves_drawCharacter_run obtain s' where
    s': "drawCharacter_run anim s = Inr s'" "pushed 0 s s'"
    by (blast dest: movesD)
  then show "\<exists>s'. drawCharacter_run anim s = Inr s' \<and>
      length (stack s') = length (stack s) \<and>
      getCurrentMatrix s' = getCurrentMatrix s \<and>
      (current s \<notin> set (stack s) \<longrightarrow> map (heap s') (stack s') = map (heap s) (stack s))"
    by (auto dest: balanced_0D)
next
  from character_pushed obtain h s' where s': "character p s = Inr (h, s')" "pushed 0 s s'"
    by blast
  then show "\<exists>hands s'. character p s = Inr (hands, s') \<and>
      length (stack s') = length (stack s) \<and>
      getCurrentMatrix s' = getCurrentMatrix s \<and>
      (current s \<notin> set (stack s) \<longrightarrow> map (heap s') (stack s') = map (heap s) (stack s))"
    by (auto dest: balanced_0D)
next
  have "pushed 0 s s" by (rule pushed_refl)
  with moves_character_spike obtain s' where
    s': "character_spike q s = Inr s'" "pushed 0 s s'"
    by (blast dest: movesD)
  then show "\<exists>s'. character_spike q s = Inr s' \<and>
      length (stack s') = length (stack s) \<and>
      getCurrentMatrix s' = getCurrentMatrix s \<and>
      (current s \<notin> set (stack s) \<longrightarrow> map (heap s') (stack s') = map (heap s) (stack s))"
    by (auto dest: balanced_0D)
next
  from drawBarbell_pushed obtain s' where s': "drawBarbell L R s = Inr s'" "pushed 0 s s'"
    by blast
  then show "\<exists>s'. drawBarbell L R s = Inr s' \<and>
      length (stack s') = length (stack s) \<and>
      getCurrentMatrix s' = getCurrentMatrix s \<and>
      (current s \<notin> set (stack s) \<longrightarrow> map (heap s') (stack s') = map (heap s) (stack s)) \<and>
      warnings s' = warnings s"
    by (auto dest: balanced_0D)
qed

theorem drawing_routines_balanced_witness:
  "current (push MatrixStack_new) \<notin> set (stack (push MatrixStack_new)) \<and>
   (\<exists>s'. drawCharacter \<lparr> headTilt = Some 1, leftShoulderAngle = None, leftElbowAngle = None,
             rightShoulderAngle = Some 2, rightElbowAngle = None, leftHipAngle = None,
             leftKneeAngle = None, rightHipAngle = None, rightKneeAngle = None \<rparr>
           (push MatrixStack_new) = Inr s' \<and>
      length (stack s') = 1 \<and>
      getCurrentMatrix s' = mat4_create \<and>
      map (heap s') (stack s') = [mat4_create]) \<and>
   (\<exists>s'. drawBarbell mat4_create (mat4_translate mat4_create (2, 0, 0))
           (push MatrixStack_new) = Inr s' \<and>
      length (stack s') = 1 \<and>
      getCurrentMatrix s' = mat4_create \<and>
      map (heap s') (stack s') = [mat4_create] \<and>
      warnings s' = [])"
proof -
  have w: "current (push MatrixStack_new) \<notin> set (stack (push MatrixStack_new))"
    by (simp add: push_def fresh_def MatrixStack_new_def)
  have e: "length (stack (push MatrixStack_new)) = 1"
    "getCurrentMatrix (push MatrixStack_new) = mat4_create"
    "map (heap (push MatrixStack_new)) (stack (push MatrixStack_new)) = [mat4_create]"
    "warnings (push MatrixStack_new) = []"
    by (simp_all add: push_def MatrixStack_new_def getCurrentMatrix_def)
  note t = drawing_routines_balanced [where s = "push MatrixStack_new"
      and anim = "\<lparr> headTilt = Some 1, leftShoulderAngle = None, leftElbowAngle = None,
             rightShoulderAngle = Some 2, rightElbowAngle = None, leftHipAngle = None,
             leftKneeAngle = None, rightHipAngle = None, rightKneeAngle = None \<rparr>"
      and L = mat4_create and R = "mat4_translate mat4_create (2, 0, 0)", unfolded e]
  from t [THEN conjunct1] w have a: "\<exists>s'. drawCharacter \<lparr> headTilt = Some 1,
             leftShoulderAngle = None, leftElbowAngle = None,
             rightShoulderAngle = Some 2, rightElbowAngle = None, leftHipAngle = None,
             leftKneeAngle = None, rightHipAngle = None, rightKneeAngle = None \<rparr>
           (push MatrixStack_new) = Inr s' \<and>
      length (stack s') = 1 \<and>
      getCurrentMatrix s' = mat4_create \<and>
      map (heap s') (stack s') = [mat4_create]"
    by simp
  from t [THEN conjunct2, THEN conjunct2, THEN conjunct2, THEN conjunct2] w have b: "\<exists>s'. drawBarbell mat4_create
           (mat4_translate mat4_create (2, 0, 0)) (push MatrixStack_new) = Inr s' \<and>
      length (stack s') = 1 \<and>
      getCurrentMatrix s' = mat4_create \<and>
      map (heap s') (stack s') = [mat4_create] \<and>
      warnings s' = []"
    by simp
  from w a b show ?thesis by (intro conjI)
qed

text \<open>
  C2. Push and pop are a round trip with copy semantics. In any state, \<^verbatim>\<open>push()\<close> leaves
  the current transform as it is; after any sequence of \<^verbatim>\<open>translate\<close>, \<^verbatim>\<open>rotate\<close>,
  \<^verbatim>\<open>scale\<close> and \<^verbatim>\<open>loadIdentity\<close> calls the copy saved by the push still holds the value
  the current transform had before the push, and the matching \<^verbatim>\<open>pop()\<close> returns normally
  and makes that value the current transform again, with the history as deep as before
  the push. Where the current matrix was not itself an object of the history, the history
  also holds the same matrices as before.
\<close>

theorem push_pop_round_trip:
  "current (push s) = current s \<and>
   getCurrentMatrix (push s) = getCurrentMatrix s \<and>
   (\<forall>calls. \<exists>s1 s2.
      run (map call calls) (push s) = Inr s1 \<and>
      heap s1 (last (stack s1)) = getCurrentMatrix s \<and>
      pop s1 = Inr s2 \<and>
      getCurrentMatrix s2 = getCurrentMatrix s \<and>
      length (stack s2) = length (stack s) \<and>
      (current s \<notin> set (stack s) \<longrightarrow> map (heap s2) (stack s2) = map (heap s) (stack s)))"
proof (intro conjI allI)
  show "current (push s) = current s"
    by (simp add: push_def)
  show "getCurrentMatrix (push s) = getCurrentMatrix s"
    using fresh_neq_current [of s] by (simp add: push_def getCurrentMatrix_def)
next
  fix calls
  have "pushed 0 s s" by (rule pushed_refl)
  with moves_push [of 0] have p: "pushed 1 s (push s)"
    by (auto simp: moves_def ok_def)
  from moves_calls [of calls 0] p obtain s1 where
    s1: "run (map call calls) (push s) = Inr s1" "pushed 1 s s1"
    unfolding One_nat_def by (blast dest: movesD)
  from moves_pop [of 0] s1(2) obtain s2 where s2: "pop s1 = Inr s2" "pushed 0 s s2"
    unfolding One_nat_def by (blast dest: movesD)
  from s1(2) have h: "heap s1 (last (stack s1)) = getCurrentMatrix s"
    by (rule pushed_1D)
  from s2(2) have "length (stack s2) = length (stack s)"
    by (simp add: pushed_0D)
  with s1(1) s2 h show "\<exists>s1 s2.
      run (map call calls) (push s) = Inr s1 \<and>
      heap s1 (last (stack s1)) = getCurrentMatrix s \<and>
      pop s1 = Inr s2 \<and>
      getCurrentMatrix s2 = getCurrentMatrix s \<and>
      length (stack s2) = length (stack s) \<and>
      (current s \<notin> set (stack s) \<longrightarrow> map (heap s2) (stack s2) = map (heap s) (stack s))"
    using pushed_0D(2,4) by blast
qed

theorem push_pop_round_trip_witness:
  "current (push MatrixStack_new) \<notin> set (stack (push MatrixStack_new)) \<and>
   getCurrentMatrix (push (push MatrixStack_new)) = mat4_create \<and>
   (\<exists>s1 s2.
      run (map call [Translate (1, 2, 3), LoadIdentity, Scale (2, 2, 2)])
        (push (push MatrixStack_new)) = Inr s1 \<and>
      heap s1 (last (stack s1)) = mat4_create \<and>
      pop s1 = Inr s2 \<and>
      getCurrentMatrix s2 = mat4_create \<and>
      length (stack s2) = 1 \<and>
      map (heap s2) (stack s2) = [mat4_create])"
proof -
  have w: "current (push MatrixStack_new) \<notin> set (stack (push MatrixStack_new))"
    by (simp add: push_def fresh_def MatrixStack_new_def)
  have e: "length (stack (push MatrixStack_new)) = 1"
    "getCurrentMatrix (push MatrixStack_new) = mat4_create"
    "map (heap (push MatrixStack_new)) (stack (push MatrixStack_new)) = [mat4_create]"
    by (simp_all add: push_def MatrixStack_new_def getCurrentMatrix_def)
  note t = push_pop_round_trip [of "push MatrixStack_new", unfolded e]
  from t have a: "getCurrentMatrix (push (push MatrixStack_new)) = mat4_create"
    by (elim conjE)
  from t [THEN conjunct2, THEN conjunct2, rule_format,
      of "[Translate (1, 2, 3), LoadIdentity, Scale (2, 2, 2)]"] w
  have b: "\<exists>s1 s2.
      run (map call [Translate (1, 2, 3), LoadIdentity, Scale (2, 2, 2)])
        (push (push MatrixStack_new)) = Inr s1 \<and>
      heap s1 (last (stack s1)) = mat4_create \<and>
      pop s1 = Inr s2 \<and>
      getCurrentMatrix s2 = mat4_create \<and>
      length (stack s2) = 1 \<and>
      map (heap s2) (stack s2) = [mat4_create]"
    by simp
  from w a b show ?thesis by (intro conjI)
qed

text \<open>
  C3. \<^verbatim>\<open>pop()\<close> throws the stack-underflow error exactly when the history is empty. On a
  history that is not empty it makes the most recently saved matrix the current one and
  removes it from the history, and touches nothing else. The error is not swallowed: a
  function body stops at the \<^verbatim>\<open>pop()\<close> that throws, whatever statements follow, and
  ends with that error.
\<close>

theorem pop_underflow_iff_empty:
  "(pop s = Inl StackUnderflow \<longleftrightarrow> stack s = []) \<and>
   (stack s \<noteq> [] \<longrightarrow>
      (\<exists>s'. pop s = Inr s' \<and>
         current s' = last (stack s) \<and>
         getCurrentMatrix s' = heap s (last (stack s)) \<and>
         stack s' = butlast (stack s) \<and>
         length (stack s') = length (stack s) - 1 \<and>
         heap s' = heap s \<and> drawn s' = drawn s \<and> warnings s' = warnings s)) \<and>
   (stack s = [] \<longrightarrow> (\<forall>rest. run (pop # rest) s = Inl StackUnderflow))"
  by (simp add: pop_def getCurrentMatrix_def)

theorem pop_underflow_iff_empty_witness:
  "stack (push MatrixStack_new) \<noteq> [] \<and>
   (\<exists>s'. pop (push MatrixStack_new) = Inr s' \<and>
      getCurrentMatrix s' = mat4_create \<and> stack s' = []) \<and>
   stack MatrixStack_new = [] \<and>
   pop MatrixStack_new = Inl StackUnderflow \<and>
   run [pop, ok (drawVAO SphereVAO)] MatrixStack_new = Inl StackUnderflow"
proof -
  have e: "stack (push MatrixStack_new) \<noteq> []" "stack MatrixStack_new = []"
    "heap (push MatrixStack_new) (last (stack (push MatrixStack_new))) = mat4_create"
    "butlast (stack (push MatrixStack_new)) = []"
    by (simp_all add: push_def MatrixStack_new_def)
  from pop_underflow_iff_empty [of "push MatrixStack_new"] e(1)
  have a: "\<exists>s'. pop (push MatrixStack_new) = Inr s' \<and>
      getCurrentMatrix s' = mat4_create \<and> stack s' = []"
    unfolding e(3,4) by auto
  from pop_underflow_iff_empty [of MatrixStack_new] e(2)
  have b: "pop MatrixStack_new = Inl StackUnderflow"
    "run [pop, ok (drawVAO SphereVAO)] MatrixStack_new = Inl StackUnderflow"
    by auto
  from e(1,2) a b show ?thesis by (intro conjI)
qed

text \<open>
  C4. Pose interpolation boundary, in double precision. \<^verbatim>\<open>interpolatePose(0)\<close> gives every
  field of the start pose its start value, in the spike scene and in the lifting scene,
  the gated \<^verbatim>\<open>RIGHT_ELBOW\<close> and the lateral offsets included. \<^verbatim>\<open>interpolatePose(1)\<close> gives
  every field its end value in the lifting scene. In the spike scene it gives the end
  value to every field but three: \<^verbatim>\<open>a + (b - a) * 1\<close> is rounded twice, and for
  \<^verbatim>\<open>BODY_LEAN_Z\<close>, \<^verbatim>\<open>RIGHT_HIP\<close> and \<^verbatim>\<open>LEFT_KNEE\<close> it is the binary64 value next to the end
  value, \<open>2 ^ -54\<close> above, \<open>2 ^ -52\<close> above and \<open>2 ^ -55\<close> below it. (\<open>pose.truncate\<close>
  drops the offsets \<^verbatim>\<open>interpolatePose\<close> adds and keeps the twelve fields of a pose.)
\<close>

theorem interpolatePose_boundary_binary64:
  "pose.truncate (interpolatePose_spike64 0) = startPose_spike64 \<and>
   RIGHT_ELBOW (interpolatePose_spike64 0) = RIGHT_ELBOW startPose_spike64 \<and>
   RIGHT_ARM_SX (interpolatePose_spike64 0) = SX_START64 \<and>
   pose.truncate (interpolatePose_spike64 1) =
     endPose_spike64
       \<lparr> BODY_LEAN_Z := BODY_LEAN_Z endPose_spike64 + 1 / 2 ^ 54,
         RIGHT_HIP := RIGHT_HIP endPose_spike64 + 1 / 2 ^ 52,
         LEFT_KNEE := LEFT_KNEE endPose_spike64 - 1 / 2 ^ 55 \<rparr> \<and>
   RIGHT_ELBOW (interpolatePose_spike64 1) = RIGHT_ELBOW endPose_spike64 \<and>
   RIGHT_ARM_SX (interpolatePose_spike64 1) = SX_END64 \<and>
   pose.truncate (interpolatePose_lift64 0) = startPose_lift64 \<and>
   RIGHT_ARM_SX (interpolatePose_lift64 0) = ARM_SX_START64 \<and>
   RIGHT_HIP_SX (interpolatePose_lift64 0) = LEG_SX_START64 \<and>
   pose.truncate (interpolatePose_lift64 1) = endPose_lift64 \<and>
   RIGHT_ARM_SX (interpolatePose_lift64 1) = ARM_SX_END64 \<and>
   RIGHT_HIP_SX (interpolatePose_lift64 1) = LEG_SX_END64"
  unfolding spike64_at_0 spike64_at_1 lift64_at_0 lift64_at_1
  by (simp add: pose.defs pose_sx.defs pose_lift.defs endPose_spike64_value)

text \<open>
  The three fields of the spike scene that \<^verbatim>\<open>interpolatePose(1)\<close> does not give their end
  value. For \<^verbatim>\<open>BODY_LEAN_Z\<close> the end value \<^verbatim>\<open>deg(-20)\<close> is \<open>-0.3490658503988659\<close> and the
  interpolated value is \<open>-0.34906585039886584\<close>.
\<close>

theorem interpolatePose_end_inexact:
  "BODY_LEAN_Z endPose_spike64 = - (6288211335136391 / 2 ^ 54) \<and>
   BODY_LEAN_Z (interpolatePose_spike64 1) = - (3144105667568195 / 2 ^ 53) \<and>
   BODY_LEAN_Z (interpolatePose_spike64 1) \<noteq> BODY_LEAN_Z endPose_spike64 \<and>
   RIGHT_HIP (interpolatePose_spike64 1) \<noteq> RIGHT_HIP endPose_spike64 \<and>
   LEFT_KNEE (interpolatePose_spike64 1) \<noteq> LEFT_KNEE endPose_spike64"
  unfolding spike64_at_1
  by (simp add: pose.defs pose_sx.defs endPose_spike64_value)

text \<open>
  C5. Ping-pong symmetry, in double precision. For every elapsed time \<open>e\<close> from \<open>0\<close> to
  \<^verbatim>\<open>DURATION\<close>, the render loop computes for \<open>e\<close> the rounded quotient \<open>e / DURATION\<close> and
  for \<open>2 * DURATION - e\<close> the difference of \<open>2\<close> and the rounded quotient
  \<open>(2 * DURATION - e) / DURATION\<close>. Both parameters lie between \<open>0\<close> and \<open>1\<close> and they
  differ by at most \<open>3 / 2 ^ 54\<close>, the two rounding errors. Where neither quotient is
  rounded, the parameters are equal, and so are the poses of both scenes.
\<close>

theorem ping_pong_near_symmetry:
  assumes "0 \<le> e" "e \<le> DURATION"
  shows "render_t e = fdiv e DURATION \<and>
     render_t (2 * DURATION - e) = 2 - fdiv (2 * DURATION - e) DURATION \<and>
     0 \<le> render_t e \<and> render_t e \<le> 1 \<and>
     0 \<le> render_t (2 * DURATION - e) \<and> render_t (2 * DURATION - e) \<le> 1 \<and>
     \<bar>render_t e - render_t (2 * DURATION - e)\<bar> \<le> 3 / 2 ^ 54 \<and>
     (fdiv e DURATION = e / DURATION \<and>
      fdiv (2 * DURATION - e) DURATION = (2 * DURATION - e) / DURATION \<longrightarrow>
        render_t e = render_t (2 * DURATION - e) \<and>
        interpolatePose_spike64 (render_t e) =
          interpolatePose_spike64 (render_t (2 * DURATION - e)) \<and>
        interpolatePose_lift64 (render_t e) =
          interpolatePose_lift64 (render_t (2 * DURATION - e)))"
proof -
  define x where "x = e / DURATION"
  define x' where "x' = (2 * DURATION - e) / DURATION"
  have x: "0 \<le> x" "x \<le> 1" using assms by (simp_all add: x_def DURATION_def)
  have x': "1 \<le> x'" "x' \<le> 2" "x' = 2 - x"
    using assms by (simp_all add: x'_def x_def DURATION_def field_simps)
  have a: "render_t e = fl x"
    unfolding x_def using assms by (rule render_t_first)
  have b: "render_t (2 * DURATION - e) = 2 - fl x'"
    unfolding x'_def using assms by (intro render_t_second) simp_all
  note u = ping_unit(2-4) [OF x] and v = ping_second(2-4) [OF x'(1,2)]
  have near: "\<bar>fl x - (2 - fl x')\<bar> \<le> 3 / 2 ^ 54"
  proof -
    define h where "h = (1::real) / 2 ^ 54"
    have "\<bar>fl x - x\<bar> \<le> h" "\<bar>fl x' - x'\<bar> \<le> 2 * h"
      using u(3) v(3) by (simp_all add: h_def)
    with x'(3) have "\<bar>fl x - (2 - fl x')\<bar> \<le> 3 * h" by linarith
    then show ?thesis by (simp add: h_def)
  qed
  have exact: "fl x = 2 - fl x'" if "fl x = x" "fl x' = x'"
    using that x'(3) by simp
  have q: "fdiv e DURATION = fl x" "fdiv (2 * DURATION - e) DURATION = fl x'"
    by (simp_all add: fdiv_def x_def x'_def)
  show ?thesis
    unfolding a b q x_def [symmetric] x'_def [symmetric]
    using u(1,2) v(1,2) near exact by simp
qed

theorem ping_pong_near_symmetry_witness:
  "(0::real) \<le> 250 \<and> 250 \<le> DURATION \<and>
   fdiv 250 DURATION = 250 / DURATION \<and>
   fdiv (2 * DURATION - 250) DURATION = (2 * DURATION - 250) / DURATION \<and>
   render_t 250 = 1 / 4 \<and>
   render_t (2 * DURATION - 250) = 1 / 4 \<and>
   interpolatePose_spike64 (render_t 250) = interpolatePose_spike64 (render_t (2 * DURATION - 250)) \<and>
   interpolatePose_lift64 (render_t 250) = interpolatePose_lift64 (render_t (2 * DURATION - 250))"
proof -
  have a: "(0::real) \<le> 250" "250 \<le> DURATION" by (simp_all add: DURATION_def)
  have q: "fdiv 250 DURATION = 250 / DURATION"
    "fdiv (2 * DURATION - 250) DURATION = (2 * DURATION - 250) / DURATION"
    unfolding fdiv_def DURATION_def by (simp_all add: fl_eval)
  have v: "250 / DURATION = 1 / 4" "2 - (2 * DURATION - 250) / DURATION = 1 / 4"
    by (simp_all add: DURATION_def)
  note t = ping_pong_near_symmetry [OF a]
  have r1: "render_t 250 = 1 / 4"
    using t [THEN conjunct1] unfolding q v .
  have r2: "render_t (2 * DURATION - 250) = 1 / 4"
    using t [THEN conjunct2, THEN conjunct1] unfolding q v .
  have eq: "render_t 250 = render_t (2 * DURATION - 250) \<and>
      interpolatePose_spike64 (render_t 250) =
        interpolatePose_spike64 (render_t (2 * DURATION - 250)) \<and>
      interpolatePose_lift64 (render_t 250) =
        interpolatePose_lift64 (render_t (2 * DURATION - 250))"
    by (rule t [THEN conjunct2, THEN conjunct2, THEN conjunct2, THEN conjunct2,
          THEN conjunct2, THEN conjunct2, THEN conjunct2, THEN mp])
       (intro conjI q)
  show ?thesis
    by (intro conjI a q r1 r2 eq [THEN conjunct2, THEN conjunct1]
          eq [THEN conjunct2, THEN conjunct2])
qed

text \<open>
  At \<open>333\<close> milliseconds the quotients \<open>0.333\<close> and \<open>1.667\<close> are both rounded; the
  parameter is the binary64 value \<open>0.333\<close> for \<open>333\<close> and the one below it,
  \<open>0.33299999999999996\<close>, for \<open>1667\<close>, and the two poses of the spike scene differ in
  \<^verbatim>\<open>BODY_LEAN_Z\<close>.
\<close>

theorem ping_pong_inexact:
  "(0::real) \<le> 333 \<and> 333 \<le> DURATION \<and>
   render_t 333 = 5998794703657501 / 2 ^ 54 \<and>
   render_t (2 * DURATION - 333) = 1499698675914375 / 2 ^ 52 \<and>
   render_t 333 \<noteq> render_t (2 * DURATION - 333) \<and>
   BODY_LEAN_Z (interpolatePose_spike64 (render_t 333)) \<noteq>
     BODY_LEAN_Z (interpolatePose_spike64 (render_t (2 * DURATION - 333)))"
proof -
  have a: "render_t 333 = 5998794703657501 / 2 ^ 54"
    unfolding render_t_def Let_def fdiv_def fsub_def DURATION_def LOOP_def
    by (simp add: js_rem_def fl_eval)
  have b: "render_t (2 * DURATION - 333) = 1499698675914375 / 2 ^ 52"
    unfolding render_t_def Let_def fdiv_def fsub_def DURATION_def LOOP_def
    by (simp add: js_rem_def fl_eval)
  have z: "BODY_LEAN_Z (interpolatePose_spike64 t) =
      lerp64 (4716158501352293 / 2 ^ 53) (- (6288211335136391 / 2 ^ 54)) t" for t
    by (simp add: interpolatePose_spike64_def Let_def pose.defs lerp_keys64_def
         startPose_spike64_value endPose_spike64_value)
  have c: "lerp64 (4716158501352293 / 2 ^ 53) (- (6288211335136391 / 2 ^ 54))
      (5998794703657501 / 2 ^ 54) = 4197381066203541 / 2 ^ 54"
    unfolding lerp64_def fadd_def fsub_def fmul_def by (simp add: fl_eval)
  have d: "lerp64 (4716158501352293 / 2 ^ 53) (- (6288211335136391 / 2 ^ 54))
      (1499698675914375 / 2 ^ 52) = 2098690533101771 / 2 ^ 53"
    unfolding lerp64_def fadd_def fsub_def fmul_def by (simp add: fl_eval)
  show ?thesis
    unfolding z a b c d by (simp add: DURATION_def)
qed

text \<open>
  C6. Gating of the right elbow and the lateral arm offset in the spike scene. The right
  shoulder is interpolated linearly. While it is above \<^verbatim>\<open>SHOULDER_LIMIT\<close>, the elbow is
  \<^verbatim>\<open>lerp(startPose.RIGHT_ELBOW, 0, k)\<close> and the offset is \<^verbatim>\<open>lerp(SX_START, SX_END, k)\<close>,
  with the fraction \<open>k\<close> of the way from the start angle to the limit, not clamped. Once
  it is at or below the limit, the elbow is \<open>0\<close> and the offset is \<^verbatim>\<open>SX_END\<close>.
\<close>

theorem gated_elbow_and_offset:
  "RIGHT_SHOULDER (interpolatePose_spike t) =
     lerp (RIGHT_SHOULDER startPose_spike) (RIGHT_SHOULDER endPose_spike) t \<and>
   (RIGHT_SHOULDER (interpolatePose_spike t) > SHOULDER_LIMIT \<longrightarrow>
      RIGHT_ELBOW (interpolatePose_spike t) =
        lerp (RIGHT_ELBOW startPose_spike) 0
          ((RIGHT_SHOULDER (interpolatePose_spike t) - RIGHT_SHOULDER startPose_spike) /
           (SHOULDER_LIMIT - RIGHT_SHOULDER startPose_spike)) \<and>
      RIGHT_ARM_SX (interpolatePose_spike t) =
        lerp SX_START SX_END
          ((RIGHT_SHOULDER (interpolatePose_spike t) - RIGHT_SHOULDER startPose_spike) /
           (SHOULDER_LIMIT - RIGHT_SHOULDER startPose_spike))) \<and>
   (RIGHT_SHOULDER (interpolatePose_spike t) \<le> SHOULDER_LIMIT \<longrightarrow>
      RIGHT_ELBOW (interpolatePose_spike t) = 0 \<and>
      RIGHT_ARM_SX (interpolatePose_spike t) = SX_END)"
  by (simp add: interpolatePose_spike_def Let_def pose.defs pose_sx.defs lerp_keys_def)

theorem gated_elbow_and_offset_witness:
  "RIGHT_SHOULDER (interpolatePose_spike 0) > SHOULDER_LIMIT \<and>
   RIGHT_ELBOW (interpolatePose_spike 0) = deg (- 125) \<and>
   RIGHT_ARM_SX (interpolatePose_spike 0) = SX_START \<and>
   RIGHT_SHOULDER (interpolatePose_spike 1) \<le> SHOULDER_LIMIT \<and>
   RIGHT_ELBOW (interpolatePose_spike 1) = 0 \<and>
   RIGHT_ARM_SX (interpolatePose_spike 1) = SX_END"
proof -
  have a: "RIGHT_SHOULDER (interpolatePose_spike 0) > SHOULDER_LIMIT"
    by (simp add: shoulder_above_limit_iff)
  have b: "RIGHT_SHOULDER (interpolatePose_spike 1) \<le> SHOULDER_LIMIT"
    using shoulder_above_limit_iff [of 1] by simp
  have k: "RIGHT_SHOULDER (interpolatePose_spike 0) = RIGHT_SHOULDER startPose_spike"
    using gated_elbow_and_offset [of 0] by (simp add: lerp_0)
  have "RIGHT_ELBOW (interpolatePose_spike 0) = RIGHT_ELBOW startPose_spike"
    "RIGHT_ARM_SX (interpolatePose_spike 0) = SX_START"
    using gated_elbow_and_offset [of 0] a unfolding k by (simp_all add: lerp_0)
  moreover have "RIGHT_ELBOW startPose_spike = deg (- 125)"
    by (simp add: startPose_spike_def)
  ultimately show ?thesis
    using a b gated_elbow_and_offset [of 1] by simp
qed

text \<open>
  C7. Knee dependency in the running gait. On every frame and for each leg, the knee angle
  is \<open>- (hipAngle + pi / 4)\<close> when the sine phase of the leg is positive and \<open>0\<close> when it
  is not. So it is a function of the hip angle of the same leg on the same frame alone,
  the phase being positive exactly when the hip angle is; and these are the hip and knee
  angles the frame hands to \<^verbatim>\<open>drawCharacter\<close>.
\<close>

theorem knee_follows_hip:
  "(run_leftLegPhase time > 0 \<longrightarrow> run_leftKneeAngle time = - (run_leftLegAngle time + pi / 4)) \<and>
   (run_leftLegPhase time \<le> 0 \<longrightarrow> run_leftKneeAngle time = 0) \<and>
   (run_rightLegPhase time > 0 \<longrightarrow> run_rightKneeAngle time = - (run_rightLegAngle time + pi / 4)) \<and>
   (run_rightLegPhase time \<le> 0 \<longrightarrow> run_rightKneeAngle time = 0) \<and>
   run_leftKneeAngle time =
     (if run_leftLegAngle time > 0 then - (run_leftLegAngle time + pi / 4) else 0) \<and>
   run_rightKneeAngle time =
     (if run_rightLegAngle time > 0 then - (run_rightLegAngle time + pi / 4) else 0) \<and>
   leftHipAngle (run_animations time) = Some (run_leftLegAngle time) \<and>
   leftKneeAngle (run_animations time) = Some (run_leftKneeAngle time) \<and>
   rightHipAngle (run_animations time) = Some (run_rightLegAngle time) \<and>
   rightKneeAngle (run_animations time) = Some (run_rightKneeAngle time)"
proof -
  have l: "run_leftLegAngle time > 0 \<longleftrightarrow> run_leftLegPhase time > 0"
    by (auto simp: run_leftLegAngle_def backLegMaxAngle_def frontLegMaxAngle_def
        zero_less_mult_iff mult_less_0_iff split: if_splits)
  have r: "run_rightLegAngle time > 0 \<longleftrightarrow> run_rightLegPhase time > 0"
    by (auto simp: run_rightLegAngle_def backLegMaxAngle_def frontLegMaxAngle_def
        zero_less_mult_iff mult_less_0_iff split: if_splits)
  show ?thesis
    unfolding l r by (simp add: run_leftKneeAngle_def run_rightKneeAngle_def run_animations_def)
qed

theorem knee_follows_hip_witness:
  "run_rightLegPhase (50 * pi) > 0 \<and> run_rightKneeAngle (50 * pi) = - (3 * pi / 4) \<and>
   run_leftLegPhase (50 * pi) \<le> 0 \<and> run_leftKneeAngle (50 * pi) = 0 \<and> run_leftLegAngle (50 * pi) = - (pi / 12)"
proof -
  have t: "run_t (50 * pi) = pi / 2" by (simp add: run_t_def)
  have p: "run_rightLegPhase (50 * pi) = 1" "run_leftLegPhase (50 * pi) = - 1"
    unfolding run_rightLegPhase_def run_leftLegPhase_def t
    by (simp_all only: sin_periodic_pi sin_pi_half)
  have a: "run_rightLegAngle (50 * pi) = pi / 2" "run_leftLegAngle (50 * pi) = - (pi / 12)"
    by (simp_all add: run_rightLegAngle_def run_leftLegAngle_def p frontLegMaxAngle_def backLegMaxAngle_def)
  show ?thesis using knee_follows_hip [of "50 * pi"] unfolding p a by simp
qed

text \<open>
  C8. Geometry closure counts. \<^verbatim>\<open>createSphere(r, latBands, longBands)\<close> returns
  \<open>(latBands + 1) * (longBands + 1)\<close> vertices, three numbers each, with as many normals,
  and \<open>latBands * longBands * 6\<close> indices. \<^verbatim>\<open>createCylinder\<close> with \<^verbatim>\<open>openEnded = false\<close>
  returns \<open>2 * (radialSegments + 2)\<close> vertices and \<open>2 * radialSegments * 3\<close> indices more
  than the same call with \<^verbatim>\<open>openEnded = true\<close>. This holds for all band and segment
  counts, the positive ones among them, and all radii and heights.
\<close>

theorem geometry_counts:
  "length (vertices (createSphere r latBands longBands)) =
     3 * ((latBands + 1) * (longBands + 1)) \<and>
   length (normals (createSphere r latBands longBands)) =
     3 * ((latBands + 1) * (longBands + 1)) \<and>
   length (indices (createSphere r latBands longBands)) = latBands * longBands * 6 \<and>
   length (vertices (createCylinder radiusTop radiusBottom height radialSegments heightSegments False)) =
     length (vertices (createCylinder radiusTop radiusBottom height radialSegments heightSegments True)) +
     3 * (2 * (radialSegments + 2)) \<and>
   length (indices (createCylinder radiusTop radiusBottom height radialSegments heightSegments False)) =
     length (indices (createCylinder radiusTop radiusBottom height radialSegments heightSegments True)) +
     2 * radialSegments * 3"
  using sphere_vertices sphere_normals sphere_indices cylinder_caps by simp

text \<open>
  C9. The barbell between hands at \<open>(-1, 1, 0)\<close> and \<open>(1, 1, 0)\<close>. \<^verbatim>\<open>drawBarbell\<close> computes
  the midpoint \<open>(0, 1, 0)\<close>, the length \<open>2\<close> and the direction \<open>(1, 0, 0)\<close>, and rotates
  by a quarter turn about the Z axis, in the sense that takes +Y to +X: the angle is
  \<open>pi / 2\<close> and the axis handed to \<^verbatim>\<open>mat4.rotate\<close> is \<open>(0, 0, -1)\<close>; the rotation maps +Y
  onto +X and keeps Z. In any state, the bar is drawn with the current transform
  translated to the midpoint, then rotated, then scaled by \<open>(1, 2, 1)\<close>, the computed
  length along the bar; the two plates follow, translated by \<open>1.95\<close> up and down the
  bar instead of scaled.
\<close>

theorem barbell_scenario:
  assumes "drawBarbell_pL L = (- 1, 1, 0)" and "drawBarbell_pR R = (1, 1, 0)"
  shows "drawBarbell_mid L R = (0, 1, 0) \<and>
         drawBarbell_len L R = 2 \<and>
         drawBarbell_dir L R = Some (1, 0, 0) \<and>
         drawBarbell_rotation L R = Some (pi / 2, (0, 0, - 1)) \<and>
         (let M = mat4_rotate mat4_create (pi / 2) (0, 0, - 1)
          in (m4 M, m5 M, m6 M) = (1, 0, 0) \<and> (m8 M, m9 M, m10 M) = (0, 0, 1)) \<and>
         (\<forall>s. \<exists>s'. drawBarbell L R s = Inr s' \<and>
            drawn s' = drawn s @
              [(BarVAO,
                mat4_scale
                  (mat4_rotate (mat4_translate (getCurrentMatrix s) (0, 1, 0))
                     (pi / 2) (0, 0, - 1))
                  (1, 2, 1)),
               (PlateVAO,
                mat4_translate
                  (mat4_rotate (mat4_translate (getCurrentMatrix s) (0, 1, 0))
                     (pi / 2) (0, 0, - 1))
                  (0, 39 / 20, 0)),
               (PlateVAO,
                mat4_translate
                  (mat4_rotate (mat4_translate (getCurrentMatrix s) (0, 1, 0))
                     (pi / 2) (0, 0, - 1))
                  (0, - (39 / 20), 0))])"
proof -
  have mid: "drawBarbell_mid L R = (0, 1, 0)"
    by (simp add: drawBarbell_mid_def assms)
  have len: "drawBarbell_len L R = 2"
    by (simp add: drawBarbell_len_def assms)
  have dir: "drawBarbell_dir L R = Some (1, 0, 0)"
    by (simp add: drawBarbell_dir_def len assms)
  have rot: "drawBarbell_rotation L R = Some (pi / 2, (0, 0, - 1))"
    by (simp add: drawBarbell_rotation_def drawBarbell_rotation_of_def dir up_def)
  have img: "let M = mat4_rotate mat4_create (pi / 2) (0, 0, - 1)
          in (m4 M, m5 M, m6 M) = (1, 0, 0) \<and> (m8 M, m9 M, m10 M) = (0, 0, 1)"
    unfolding rotate_quarter_about_minus_z by simp
  have drawn: "\<exists>s'. drawBarbell L R s = Inr s' \<and>
            drawn s' = drawn s @
              [(BarVAO,
                mat4_scale
                  (mat4_rotate (mat4_translate (getCurrentMatrix s) (0, 1, 0))
                     (pi / 2) (0, 0, - 1))
                  (1, 2, 1)),
               (PlateVAO,
                mat4_translate
                  (mat4_rotate (mat4_translate (getCurrentMatrix s) (0, 1, 0))
                     (pi / 2) (0, 0, - 1))
                  (0, 39 / 20, 0)),
               (PlateVAO,
                mat4_translate
                  (mat4_rotate (mat4_translate (getCurrentMatrix s) (0, 1, 0))
                     (pi / 2) (0, 0, - 1))
                  (0, - (39 / 20), 0))]" for s
    using drawBarbell_draws [of L R s] unfolding mid len rot
    by (simp del: mat4_translate.simps mat4_rotate.simps mat4_scale.simps)
  from mid len dir rot img drawn show ?thesis by blast
qed

theorem barbell_scenario_witness:
  "drawBarbell_pL (mat4_translate mat4_create (- 1, 1, 0)) = (- 1, 1, 0) \<and>
   drawBarbell_pR (mat4_translate mat4_create (1, 1, 0)) = (1, 1, 0) \<and>
   drawBarbell_mid (mat4_translate mat4_create (- 1, 1, 0)) (mat4_translate mat4_create (1, 1, 0)) = (0, 1, 0) \<and>
   drawBarbell_len (mat4_translate mat4_create (- 1, 1, 0)) (mat4_translate mat4_create (1, 1, 0)) = 2 \<and>
   drawBarbell_rotation (mat4_translate mat4_create (- 1, 1, 0)) (mat4_translate mat4_create (1, 1, 0)) =
     Some (pi / 2, (0, 0, - 1))"
proof -
  have a: "drawBarbell_pL (mat4_translate mat4_create (- 1, 1, 0)) = (- 1, 1, 0)"
    "drawBarbell_pR (mat4_translate mat4_create (1, 1, 0)) = (1, 1, 0)"
    by (simp_all add: drawBarbell_pL_def drawBarbell_pR_def mat4_create_def)
  show ?thesis using a barbell_scenario [OF a] by blast
qed

text \<open>
  C10. The rotation of the barbell is always defined. For hands at two different
  positions, the direction is a unit vector (the length it is divided by is not zero),
  and \<^verbatim>\<open>drawBarbell\<close> draws the bar and the two plates with the current transform
  translated to the midpoint and then turned by the rotation computed from that
  direction, or not turned when there is none. For every value of \<^verbatim>\<open>dir\<close>, also one that
  rounding has taken off the unit length: the argument of the arccosine is the dot
  product clamped to \<open>[-1, 1]\<close>, where the arccosine is the inverse of the cosine and
  lies between \<open>0\<close> and \<open>pi\<close>; the axis is normalised and used only when the cross product
  is longer than \<open>0.00001\<close>, and is then a unit vector; with a cross product that short
  and a negative dot product a half turn about +X is applied instead; otherwise no
  rotation is applied. So whatever rotation is applied has an angle between \<open>0\<close> and
  \<open>pi\<close> and a unit axis, which \<^verbatim>\<open>mat4.rotate\<close> does not reject as too short.
\<close>

theorem barbell_rotation_defined:
  assumes "drawBarbell_pL L \<noteq> drawBarbell_pR R"
  shows "(\<exists>dir. drawBarbell_dir L R = Some dir \<and> vec3_length dir = 1 \<and>
            drawBarbell_rotation L R = drawBarbell_rotation_of dir) \<and>
    (\<forall>s. \<exists>s'. drawBarbell L R s = Inr s' \<and>
       (let M = mat4_translate (getCurrentMatrix s) (drawBarbell_mid L R);
            Q = (case drawBarbell_rotation L R of
                   None \<Rightarrow> M
                 | Some (ang, n) \<Rightarrow> mat4_rotate M ang n);
            len = drawBarbell_len L R
        in drawn s' = drawn s @
             [(BarVAO, mat4_scale Q (1, len, 1)),
              (PlateVAO, mat4_translate Q (0, len - 0.05, 0)),
              (PlateVAO, mat4_translate Q (0, - (len - 0.05), 0))])) \<and>
    (\<forall>d. let c = min (max (vec3_dot up d) (- 1)) 1;
             axis = vec3_cross up d;
             axisLen = vec3_length axis
         in - 1 \<le> c \<and> c \<le> 1 \<and> cos (arccos c) = c \<and> 0 \<le> arccos c \<and> arccos c \<le> pi \<and>
            (axisLen > 1 / 100000 \<longrightarrow>
               drawBarbell_rotation_of d = Some (arccos c, vec3_scale axis (1 / axisLen)) \<and>
               vec3_length (vec3_scale axis (1 / axisLen)) = 1) \<and>
            (\<not> axisLen > 1 / 100000 \<and> vec3_dot up d < 0 \<longrightarrow>
               drawBarbell_rotation_of d = Some (pi, (1, 0, 0))) \<and>
            (\<not> axisLen > 1 / 100000 \<and> \<not> vec3_dot up d < 0 \<longrightarrow>
               drawBarbell_rotation_of d = None)) \<and>
    (\<forall>d ang n. drawBarbell_rotation_of d = Some (ang, n) \<longrightarrow>
       0 \<le> ang \<and> ang \<le> pi \<and> vec3_length n = 1 \<and> \<not> vec3_length n < EPSILON)"
proof (intro conjI allI impI)
  from assms show "\<exists>dir. drawBarbell_dir L R = Some dir \<and> vec3_length dir = 1 \<and>
            drawBarbell_rotation L R = drawBarbell_rotation_of dir"
    by (rule distinct_hands_dir) blast
next
  fix s
  show "\<exists>s'. drawBarbell L R s = Inr s' \<and>
       (let M = mat4_translate (getCurrentMatrix s) (drawBarbell_mid L R);
            Q = (case drawBarbell_rotation L R of
                   None \<Rightarrow> M
                 | Some (ang, n) \<Rightarrow> mat4_rotate M ang n);
            len = drawBarbell_len L R
        in drawn s' = drawn s @
             [(BarVAO, mat4_scale Q (1, len, 1)),
              (PlateVAO, mat4_translate Q (0, len - 0.05, 0)),
              (PlateVAO, mat4_translate Q (0, - (len - 0.05), 0))])"
    by (rule drawBarbell_oriented)
next
  fix d
  show "let c = min (max (vec3_dot up d) (- 1)) 1;
             axis = vec3_cross up d;
             axisLen = vec3_length axis
         in - 1 \<le> c \<and> c \<le> 1 \<and> cos (arccos c) = c \<and> 0 \<le> arccos c \<and> arccos c \<le> pi \<and>
            (axisLen > 1 / 100000 \<longrightarrow>
               drawBarbell_rotation_of d = Some (arccos c, vec3_scale axis (1 / axisLen)) \<and>
               vec3_length (vec3_scale axis (1 / axisLen)) = 1) \<and>
            (\<not> axisLen > 1 / 100000 \<and> vec3_dot up d < 0 \<longrightarrow>
               drawBarbell_rotation_of d = Some (pi, (1, 0, 0))) \<and>
            (\<not> axisLen > 1 / 100000 \<and> \<not> vec3_dot up d < 0 \<longrightarrow>
               drawBarbell_rotation_of d = None)"
    unfolding Let_def using rotation_of_cases [of d] by blast
next
  fix d ang n
  assume "drawBarbell_rotation_of d = Some (ang, n)"
  then have r: "0 \<le> ang \<and> ang \<le> pi \<and> vec3_length n = 1 \<and> \<not> vec3_length n < EPSILON"
    by (rule rotation_of_applied)
  from r show "0 \<le> ang" by simp
  from r show "ang \<le> pi" by simp
  from r show "vec3_length n = 1" by simp
  from r show "\<not> vec3_length n < EPSILON" by simp
qed

theorem barbell_rotation_defined_witness:
  "drawBarbell_pL mat4_create \<noteq> drawBarbell_pR (mat4_translate mat4_create (0, - 2, 0)) \<and>
   drawBarbell_dir mat4_create (mat4_translate mat4_create (0, - 2, 0)) = Some (0, - 1, 0) \<and>
   drawBarbell_rotation mat4_create (mat4_translate mat4_create (0, - 2, 0)) = Some (pi, (1, 0, 0)) \<and>
   (\<exists>s'. drawBarbell mat4_create (mat4_translate mat4_create (0, - 2, 0)) MatrixStack_new = Inr s' \<and>
      drawn s' =
        [(BarVAO,
          mat4_scale (mat4_rotate (mat4_translate mat4_create (0, - 1, 0)) pi (1, 0, 0)) (1, 2, 1)),
         (PlateVAO,
          mat4_translate (mat4_rotate (mat4_translate mat4_create (0, - 1, 0)) pi (1, 0, 0))
            (0, 39 / 20, 0)),
         (PlateVAO,
          mat4_translate (mat4_rotate (mat4_translate mat4_create (0, - 1, 0)) pi (1, 0, 0))
            (0, - (39 / 20), 0))]) \<and>
   vec3_dot up (1, 2, 0) = 2 \<and>
   drawBarbell_rotation_of (1, 2, 0) = Some (0, (0, 0, - 1))"
proof -
  let ?R = "mat4_translate mat4_create (0, - 2, 0)"
  have p: "drawBarbell_pL mat4_create = (0, 0, 0)" "drawBarbell_pR ?R = (0, - 2, 0)"
    by (simp_all add: drawBarbell_pL_def drawBarbell_pR_def mat4_create_def)
  then have ne: "drawBarbell_pL mat4_create \<noteq> drawBarbell_pR ?R"
    by simp
  have len: "drawBarbell_len mat4_create ?R = 2"
    unfolding drawBarbell_len_def p by simp
  have mid: "drawBarbell_mid mat4_create ?R = (0, - 1, 0)"
    unfolding drawBarbell_mid_def p by simp
  have dir: "drawBarbell_dir mat4_create ?R = Some (0, - 1, 0)"
    unfolding drawBarbell_dir_def drawBarbell_len_def p by simp
  note t = barbell_rotation_defined [OF ne]
  from t [THEN conjunct1] dir
  have r: "drawBarbell_rotation mat4_create ?R = drawBarbell_rotation_of (0, - 1, 0)"
    by auto
  have anti: "drawBarbell_rotation_of (0, - 1, 0) = Some (pi, (1, 0, 0))"
    using t [THEN conjunct2, THEN conjunct2, THEN conjunct1, rule_format, of "(0, - 1, 0)"]
    by (simp add: Let_def up_def)
  have clamp: "drawBarbell_rotation_of (1, 2, 0) = Some (0, (0, 0, - 1))"
    using t [THEN conjunct2, THEN conjunct2, THEN conjunct1, rule_format, of "(1, 2, 0)"]
    by (simp add: Let_def up_def)
  have draws: "\<exists>s'. drawBarbell mat4_create ?R MatrixStack_new = Inr s' \<and>
      drawn s' =
        [(BarVAO,
          mat4_scale (mat4_rotate (mat4_translate mat4_create (0, - 1, 0)) pi (1, 0, 0)) (1, 2, 1)),
         (PlateVAO,
          mat4_translate (mat4_rotate (mat4_translate mat4_create (0, - 1, 0)) pi (1, 0, 0))
            (0, 39 / 20, 0)),
         (PlateVAO,
          mat4_translate (mat4_rotate (mat4_translate mat4_create (0, - 1, 0)) pi (1, 0, 0))
            (0, - (39 / 20), 0))]"
    using t [THEN conjunct2, THEN conjunct1, rule_format, of MatrixStack_new]
    unfolding r anti len mid
    by (simp add: Let_def MatrixStack_new_def getCurrentMatrix_def
          del: mat4_translate.simps mat4_rotate.simps mat4_scale.simps)
  have dot: "vec3_dot up (1, 2, 0) = 2" by (simp add: up_def)
  show ?thesis
    unfolding r anti by (intro conjI ne dir refl draws dot clamp)
qed

end
